theory Spec2Isabelle
  imports Complex_Main "HOL-Library.Log_Nat"
begin

section \<open>JavaScript numbers\<close>

text \<open>
  Every number of \<^verbatim>\<open>script.js\<close> is an IEEE 754 binary64 value, and every arithmetic
  operator rounds its exact result to the nearest such value, ties to even.  A finite
  double is modelled by the rational number it denotes; \<open>binary64\<close> is the rounding.
  The quantum of a non-zero \<open>x\<close> is \<open>2 ^ e\<close> with \<open>e = max (\<lfloor>log\<^sub>2 \<bar>x\<bar>\<rfloor> - 52) (- 1074)\<close>
  (53 significant bits, subnormals below \<open>2 ^ - 1022\<close>).  Overflow to \<open>Infinity\<close> is not
  modelled: a time value of a \<^verbatim>\<open>Date\<close> is an integer of magnitude at most
  \<open>8.64 * 10 ^ 15\<close>, and nothing computed from it here comes near \<open>2 ^ 1024\<close>.  No
  operation of the script yields a negative zero or a NaN on such inputs either, and every
  divisor is a non-zero constant.
\<close>

type_synonym number = rat

definition round_half_even :: "rat \<Rightarrow> int" where
  "round_half_even x =
     (let f = \<lfloor>x\<rfloor>; r = x - of_int f
      in if r < 1 / 2 then f else if 1 / 2 < r then f + 1 else if even f then f else f + 1)"

definition ilog2 :: "rat \<Rightarrow> int" where
  \<comment> \<open>\<open>\<lfloor>log\<^sub>2 x\<rfloor>\<close> for \<open>x > 0\<close>, from the bit lengths of numerator and denominator\<close>
  "ilog2 x =
     (let (p, q) = quotient_of x; e = bitlen p - bitlen q
      in if x < 2 powi e then e - 1 else e)"

definition quantum :: "rat \<Rightarrow> int" where
  "quantum x = max (ilog2 \<bar>x\<bar> - 52) (- 1074)"

definition binary64 :: "rat \<Rightarrow> number" where
  "binary64 x =
     (if x = 0 then 0
      else of_int (round_half_even (x / 2 powi quantum x)) * 2 powi quantum x)"

definition fsub :: "number \<Rightarrow> number \<Rightarrow> number" where
  "fsub a b = binary64 (a - b)"

definition fmul :: "number \<Rightarrow> number \<Rightarrow> number" where
  "fmul a b = binary64 (a * b)"

definition fdiv :: "number \<Rightarrow> number \<Rightarrow> number" where
  "fdiv a b = binary64 (a / b)"

section \<open>The melt-rate model\<close>

text \<open>Lines 26 to 34 of \<^verbatim>\<open>script.js\<close>; a decimal literal denotes the double nearest to it.\<close>

definition START_VOLUME_KM3 :: number where
  "START_VOLUME_KM3 = binary64 (464 / 10)"

definition YEARLY_MELT_KM3 :: number where
  "YEARLY_MELT_KM3 = binary64 (12 / 10)"

definition TRUCK_CAPACITY_L :: number where
  "TRUCK_CAPACITY_L = binary64 10000"

definition SECONDS_PER_YEAR :: number where
  "SECONDS_PER_YEAR = fmul (fmul (fmul 365 24) 60) 60"

definition MELT_RATE_M3_PER_SEC :: number where
  "MELT_RATE_M3_PER_SEC = fdiv (fmul YEARLY_MELT_KM3 (binary64 (10 ^ 9))) SECONDS_PER_YEAR"

definition MELT_RATE_L_PER_SEC :: number where
  "MELT_RATE_L_PER_SEC = fmul MELT_RATE_M3_PER_SEC 1000"

definition TRUCK_RATE_PER_SEC :: number where
  "TRUCK_RATE_PER_SEC = fdiv MELT_RATE_L_PER_SEC TRUCK_CAPACITY_L"

text \<open>
  \<^verbatim>\<open>Date.UTC(2024, 0, 1, 0, 0, 0)\<close>: 1 January 2024 is day 19723 of the epoch of
  \<^verbatim>\<open>Date\<close>, and a day has 86400000 milliseconds.
\<close>

definition startOfYear :: int where
  "startOfYear = 19723 * 86400000"

section \<open>The counter update\<close>

text \<open>
  \<open>now\<close> is \<^verbatim>\<open>now.getTime()\<close>, an integer number of milliseconds.  The three values
  of \<^verbatim>\<open>updateCounters\<close> are functions of \<^verbatim>\<open>secondsSinceStart\<close>.
\<close>

definition secondsSinceStart :: "int \<Rightarrow> number" where
  "secondsSinceStart now = fdiv (fsub (of_int now) (of_int startOfYear)) 1000"

definition meltedM3 :: "number \<Rightarrow> number" where
  "meltedM3 t = fmul t MELT_RATE_M3_PER_SEC"

text \<open>Line 58; the litres are computed and not used.\<close>

definition meltedL :: "number \<Rightarrow> number" where
  "meltedL t = fmul (meltedM3 t) 1000"

definition trucks :: "number \<Rightarrow> number" where
  "trucks t = fmul t TRUCK_RATE_PER_SEC"

definition remainingKm3 :: "number \<Rightarrow> number" where
  "remainingKm3 t =
     (let r = fsub START_VOLUME_KM3 (fmul YEARLY_MELT_KM3 (fdiv t SECONDS_PER_YEAR))
      in if r < 0 then 0 else r)"

section \<open>Formatting\<close>

text \<open>
  \<^verbatim>\<open>Number.prototype.toFixed(f)\<close> for a finite number of magnitude below \<open>10 ^ 21\<close> (the
  counters stay below it): the sign is split off, \<open>n\<close> is the integer for which \<open>n / 10 ^ f\<close>
  is nearest to the absolute value, the larger one at a tie, and its decimal digits are
  padded with zeros to \<open>f + 1\<close> places before the point is put in.
\<close>

definition digit_char :: "nat \<Rightarrow> char" where
  "digit_char d = ''0123456789'' ! d"

fun decimal :: "nat \<Rightarrow> string" where
  "decimal n = (if n < 10 then [digit_char n] else decimal (n div 10) @ [digit_char (n mod 10)])"

definition nearest_scaled :: "nat \<Rightarrow> number \<Rightarrow> nat" where
  "nearest_scaled f x = nat \<lfloor>\<bar>x\<bar> * 10 ^ f + 1 / 2\<rfloor>"

definition put_point :: "nat \<Rightarrow> string \<Rightarrow> string" where
  "put_point f m =
     (if f = 0 then m
      else let m' = replicate (f + 1 - length m) (CHR ''0'') @ m;
               k = length m'
           in take (k - f) m' @ ''.'' @ drop (k - f) m')"

definition toFixed :: "nat \<Rightarrow> number \<Rightarrow> string" where
  "toFixed f x = (if x < 0 then ''-'' else []) @ put_point f (decimal (nearest_scaled f x))"

text \<open>
  \<^verbatim>\<open>formatNumber\<close> replaces every match of \<^verbatim>\<open>/\B(?=(\d{3})+(?!\d))/g\<close> by a comma.  A
  match is empty, so the replacement inserts a comma at each position where the pattern
  holds: the position is not a word boundary, and what follows is one or more groups of
  three digits and then no digit.
\<close>

definition is_digit :: "char \<Rightarrow> bool" where
  "is_digit c = (48 \<le> (of_char c :: nat) \<and> (of_char c :: nat) \<le> 57)"

definition is_word :: "char \<Rightarrow> bool" where
  "is_word c =
     (let n = (of_char c :: nat)
      in (48 \<le> n \<and> n \<le> 57) \<or> (65 \<le> n \<and> n \<le> 90) \<or> n = 95 \<or> (97 \<le> n \<and> n \<le> 122))"

fun lookahead :: "string \<Rightarrow> bool" where
  "lookahead (a # b # c # rest) =
     (is_digit a \<and> is_digit b \<and> is_digit c \<and>
      ((case rest of [] \<Rightarrow> True | d # _ \<Rightarrow> \<not> is_digit d) \<or> lookahead rest))"
| "lookahead _ = False"

definition not_boundary :: "char option \<Rightarrow> string \<Rightarrow> bool" where
  "not_boundary prev s =
     ((case prev of None \<Rightarrow> False | Some c \<Rightarrow> is_word c) =
      (case s of [] \<Rightarrow> False | c # _ \<Rightarrow> is_word c))"

definition matches :: "char option \<Rightarrow> string \<Rightarrow> bool" where
  "matches prev s = (not_boundary prev s \<and> lookahead s)"

fun replace_matches :: "char option \<Rightarrow> string \<Rightarrow> string" where
  "replace_matches prev [] = (if matches prev [] then '','' else [])"
| "replace_matches prev (c # cs) =
     (if matches prev (c # cs) then '','' else []) @ c # replace_matches (Some c) cs"

definition formatNumber :: "string \<Rightarrow> string" where
  "formatNumber v = replace_matches None v"

text \<open>
  The grouping as the specification words it: a separator every three digits from the
  right, none in front.
\<close>

fun group_right :: "string \<Rightarrow> string" where
  "group_right (a # b # c # d # rest) = a # b # c # CHR '','' # group_right (d # rest)"
| "group_right ds = ds"

definition grouped :: "string \<Rightarrow> string" where
  "grouped ds = rev (group_right (rev ds))"

text \<open>The three strings that \<^verbatim>\<open>updateCounters\<close> writes at the time value \<open>now\<close>.\<close>

record display =
  volume_text :: string
  melted_text :: string
  trucks_text :: string

definition updateCounters :: "int \<Rightarrow> display" where
  "updateCounters now =
     (let t = secondsSinceStart now
      in \<lparr>volume_text = toFixed 2 (remainingKm3 t),
          melted_text = formatNumber (toFixed 0 (meltedM3 t)),
          trucks_text = formatNumber (toFixed 0 (trucks t))\<rparr>)"

section \<open>The audio toggle\<close>

text \<open>
  The state that the click handler of lines 75 to 85 reads and writes: the \<^verbatim>\<open>muted\<close>
  flag of the video element, and the text and the class list of the button.  A class list
  is an ordered set of tokens: \<^verbatim>\<open>add\<close> appends a token that is not present and
  \<^verbatim>\<open>remove\<close> takes it out.
\<close>

record audio =
  muted :: bool
  textContent :: string
  classList :: "string list"

definition classList_add :: "string \<Rightarrow> string list \<Rightarrow> string list" where
  "classList_add tok cl = (if tok \<in> set cl then cl else cl @ [tok])"

definition classList_remove :: "string \<Rightarrow> string list \<Rightarrow> string list" where
  "classList_remove tok cl = removeAll tok cl"

definition click :: "audio \<Rightarrow> audio" where
  "click s =
     (if muted s
      then s\<lparr>muted := False, textContent := ''Ton ausschalten'',
             classList := classList_add ''active'' (classList s)\<rparr>
      else s\<lparr>muted := True, textContent := ''Ton abspielen'',
             classList := classList_remove ''active'' (classList s)\<rparr>)"

definition active :: "audio \<Rightarrow> bool" where
  "active s = (''active'' \<in> set (classList s))"

text \<open>The label and the active mark agree with the mute flag.\<close>

definition consistent :: "audio \<Rightarrow> bool" where
  "consistent s =
     ((\<not> muted s) = active s \<and>
      textContent s = (if muted s then ''Ton abspielen'' else ''Ton ausschalten''))"

section \<open>Startup\<close>

text \<open>
  The page as the script finds and leaves it.  An element that
  \<^verbatim>\<open>document.getElementById\<close> does not find is \<open>None\<close>: the lookup yields \<^verbatim>\<open>null\<close> and
  nothing checks it.  A counter region holds its text, the toggle button holds whether
  the click handler is attached, the video holds its \<^verbatim>\<open>muted\<close> flag.  \<open>interval\<close> says
  that \<^verbatim>\<open>setInterval(updateCounters, 1000)\<close> has been called and \<open>initMap_set\<close> that
  \<^verbatim>\<open>window.initMap\<close> has been assigned.  Writing a property of \<^verbatim>\<open>null\<close> and calling a
  method on it throw a \<^verbatim>\<open>TypeError\<close>, which ends the script where it stands.
\<close>

datatype js_error = TypeError

record page =
  volume_remaining :: "string option"
  melted_since :: "string option"
  truck_count :: "string option"
  audio_toggle :: "bool option"
  background_video :: "bool option"
  interval :: bool
  initMap_set :: bool

text \<open>Lines 65 to 67: the three writes of \<^verbatim>\<open>updateCounters\<close>, in their order.\<close>

definition write_counters :: "display \<Rightarrow> page \<Rightarrow> page \<times> js_error option" where
  "write_counters d p =
     (if volume_remaining p = None then (p, Some TypeError)
      else let p1 = p\<lparr>volume_remaining := Some (volume_text d)\<rparr>
        in if melted_since p1 = None then (p1, Some TypeError)
           else let p2 = p1\<lparr>melted_since := Some (melted_text d)\<rparr>
             in if truck_count p2 = None then (p2, Some TypeError)
                else (p2\<lparr>truck_count := Some (trucks_text d)\<rparr>, None))"

text \<open>
  The script from line 37 on: the first update, the timer, the click handler, the map
  initializer.
\<close>

definition startup :: "int \<Rightarrow> page \<Rightarrow> page \<times> js_error option" where
  "startup now p =
     (case write_counters (updateCounters now) p of
        (p1, Some e) \<Rightarrow> (p1, Some e)
      | (p1, None) \<Rightarrow>
          let p2 = p1\<lparr>interval := True\<rparr>
          in (case audio_toggle p2 of
                None \<Rightarrow> (p2, Some TypeError)
              | Some _ \<Rightarrow> (p2\<lparr>audio_toggle := Some True, initMap_set := True\<rparr>, None)))"

section \<open>The map initializer\<close>

text \<open>
  The Google Maps library is not part of the repository.  The model keeps what the
  script hands to it: a map is the element and the options given to
  \<^verbatim>\<open>new google.maps.Map\<close> with its \<^verbatim>\<open>styles\<close> option, which \<^verbatim>\<open>setOptions\<close> sets to the list
  it is given; a marker is the options given to \<^verbatim>\<open>new google.maps.Marker\<close>, its map
  named by the position of the map among the maps created.
\<close>

record latlng =
  lat :: number
  lng :: number

record style_rule =
  featureType :: "string option"
  elementType :: "string option"
  stylers :: "(string \<times> string) list"

record google_map =
  mapDiv :: "string option"
  center :: latlng
  zoom :: number
  mapTypeId :: string
  tilt :: number
  heading :: number
  disableDefaultUI :: bool
  styles :: "style_rule list"

record marker =
  position :: latlng
  marker_map :: nat
  title :: string

record maps_api =
  maps :: "google_map list"
  markers :: "marker list"

definition new_Map :: "google_map \<Rightarrow> maps_api \<Rightarrow> nat \<times> maps_api" where
  "new_Map m w = (length (maps w), w\<lparr>maps := maps w @ [m]\<rparr>)"

definition setOptions_styles :: "nat \<Rightarrow> style_rule list \<Rightarrow> maps_api \<Rightarrow> maps_api" where
  "setOptions_styles i st w = w\<lparr>maps := (maps w)[i := (maps w ! i)\<lparr>styles := st\<rparr>]\<rparr>"

definition new_Marker :: "marker \<Rightarrow> maps_api \<Rightarrow> maps_api" where
  "new_Marker k w = w\<lparr>markers := markers w @ [k]\<rparr>"

definition matterhorn :: latlng where
  "matterhorn = \<lparr>lat = binary64 (4597631 / 100000), lng = binary64 (765827 / 100000)\<rparr>"

definition geometry_rule :: "string option \<Rightarrow> string \<Rightarrow> string \<Rightarrow> style_rule" where
  "geometry_rule f e c = \<lparr>featureType = f, elementType = Some e, stylers = [(''color'', c)]\<rparr>"

definition darkStyle :: "style_rule list" where
  "darkStyle =
     [geometry_rule None ''geometry'' ''#1e1e1e'',
      geometry_rule None ''labels.text.fill'' ''#757575'',
      geometry_rule None ''labels.text.stroke'' ''#1e1e1e'',
      geometry_rule (Some ''administrative.locality'') ''labels.text.fill'' ''#d6d6d6'',
      geometry_rule (Some ''road'') ''geometry'' ''#383838'',
      geometry_rule (Some ''road'') ''geometry.stroke'' ''#1e1e1e'',
      geometry_rule (Some ''water'') ''geometry'' ''#0a3148'',
      geometry_rule (Some ''poi.park'') ''geometry'' ''#0c3b47'']"

text \<open>
  \<^verbatim>\<open>window.initMap\<close>; \<open>el\<close> is what \<^verbatim>\<open>document.getElementById('map')\<close> yields.  The
  constructor is given no \<^verbatim>\<open>styles\<close>, so the map starts with \<open>default_styles\<close>, those of
  the library.
\<close>

definition initMap :: "string option \<Rightarrow> style_rule list \<Rightarrow> maps_api \<Rightarrow> maps_api" where
  "initMap el default_styles w =
     (let (i, w1) = new_Map \<lparr>mapDiv = el, center = matterhorn, zoom = 13,
                              mapTypeId = ''hybrid'', tilt = 45, heading = 0,
                              disableDefaultUI = True, styles = default_styles\<rparr> w;
          w2 = setOptions_styles i darkStyle w1
      in new_Marker \<lparr>position = matterhorn, marker_map = i, title = ''Matterhorn''\<rparr> w2)"

section \<open>Lemmas on rounding\<close>

lemma rhe_cases: "round_half_even x = \<lfloor>x\<rfloor> \<or> round_half_even x = \<lfloor>x\<rfloor> + 1"
  by (simp add: round_half_even_def Let_def)

lemma rhe_mono:
  assumes "x \<le> y"
  shows "round_half_even x \<le> round_half_even y"
proof (cases "\<lfloor>x\<rfloor> = \<lfloor>y\<rfloor>")
  case True
  with assms show ?thesis
    by (auto simp add: round_half_even_def Let_def)
next
  case False
  with assms have "\<lfloor>x\<rfloor> + 1 \<le> \<lfloor>y\<rfloor>"
    using floor_mono [of x y] by linarith
  moreover have "round_half_even x \<le> \<lfloor>x\<rfloor> + 1" "\<lfloor>y\<rfloor> \<le> round_half_even y"
    using rhe_cases [of x] rhe_cases [of y] by linarith+
  ultimately show ?thesis by linarith
qed

lemma rhe_of_int: "round_half_even (of_int n) = n"
  by (simp add: round_half_even_def)

lemma rhe_minus: "round_half_even (- x) = - round_half_even x"
proof (cases "x = of_int \<lfloor>x\<rfloor>")
  case True
  then obtain n where n: "x = of_int n" ..
  then have "- x = of_int (- n)" by simp
  then show ?thesis unfolding n by (simp only: rhe_of_int)
next
  case False
  then have c: "\<lfloor>- x\<rfloor> = - \<lfloor>x\<rfloor> - 1"
    by (metis ceiling_altdef ceiling_def minus_diff_eq
        add_diff_cancel_right' uminus_add_conv_diff)
  show ?thesis
    unfolding round_half_even_def Let_def c using False
    by (auto simp add: algebra_simps)
qed

lemma bitlen_powi:
  assumes "0 < p"
  shows "2 powi (bitlen p - 1) \<le> (of_int p :: rat)" "(of_int p :: rat) < 2 powi (bitlen p)"
proof -
  from assms have b: "1 \<le> bitlen p"
    using bitlen_eq_zero_iff [of p] bitlen_nonneg [of p] by linarith
  from bitlen_bounds [OF assms] have "2 ^ nat (bitlen p - 1) \<le> p" "p < 2 ^ nat (bitlen p)"
    by simp_all
  then have "(of_int (2 ^ nat (bitlen p - 1)) :: rat) \<le> of_int p"
     "(of_int p :: rat) < of_int (2 ^ nat (bitlen p))"
    by (simp_all only: of_int_le_iff of_int_less_iff)
  then show "2 powi (bitlen p - 1) \<le> (of_int p :: rat)" "(of_int p :: rat) < 2 powi (bitlen p)"
    using b by (simp_all add: power_int_def)
qed

lemma ilog2_bounds:
  assumes "0 < x"
  shows "2 powi (ilog2 x) \<le> x" "x < 2 powi (ilog2 x + 1)"
proof -
  obtain p q where pq: "quotient_of x = (p, q)" by (cases "quotient_of x")
  then have q: "0 < q" and x: "x = of_int p / of_int q"
    by (simp_all add: quotient_of_denom_pos quotient_of_div)
  from assms x q have p: "0 < p"
    by (simp add: zero_less_divide_iff)
  define e where "e = bitlen p - bitlen q"
  have lo: "2 powi (e - 1) \<le> x"
  proof -
    have "2 powi (e - 1) * (of_int q :: rat) \<le> 2 powi (e - 1) * 2 powi (bitlen q)"
      using bitlen_powi(2) [OF q] by (simp add: less_imp_le)
    also have "\<dots> = 2 powi (bitlen p - 1)"
      unfolding e_def by (simp add: power_int_add [symmetric])
    also have "\<dots> \<le> of_int p" by (rule bitlen_powi(1) [OF p])
    finally show ?thesis using q by (simp add: x pos_le_divide_eq)
  qed
  have hi: "x < 2 powi (e + 1)"
  proof -
    have "(of_int p :: rat) < 2 powi (bitlen p)" by (rule bitlen_powi(2) [OF p])
    also have "\<dots> = 2 powi (e + 1) * 2 powi (bitlen q - 1)"
      unfolding e_def by (simp add: power_int_add [symmetric])
    also have "\<dots> \<le> 2 powi (e + 1) * of_int q"
      using bitlen_powi(1) [OF q] by simp
    finally show ?thesis using q by (simp add: x pos_divide_less_eq)
  qed
  have il: "ilog2 x = (if x < 2 powi e then e - 1 else e)"
    by (simp add: ilog2_def pq e_def Let_def)
  show "2 powi (ilog2 x) \<le> x" using lo by (simp add: il)
  show "x < 2 powi (ilog2 x + 1)" using hi by (simp add: il)
qed

lemma powi2_mono: "a \<le> b \<Longrightarrow> (2::rat) powi a \<le> 2 powi b"
  by (rule power_int_increasing) simp_all

lemma ilog2_mono:
  assumes "0 < x" "x \<le> y"
  shows "ilog2 x \<le> ilog2 y"
proof (rule ccontr)
  assume "\<not> ilog2 x \<le> ilog2 y"
  then have "ilog2 y + 1 \<le> ilog2 x" by simp
  then have "(2::rat) powi (ilog2 y + 1) \<le> 2 powi (ilog2 x)" by (rule powi2_mono)
  moreover have "y < 2 powi (ilog2 y + 1)" "2 powi (ilog2 x) \<le> x"
    using assms ilog2_bounds [of x] ilog2_bounds [of y] by simp_all
  ultimately show False using assms by linarith
qed

lemma binary64_zero: "binary64 0 = 0"
  by (simp add: binary64_def)

lemma binary64_minus: "binary64 (- x) = - binary64 x"
  by (simp add: binary64_def quantum_def rhe_minus)

lemma binary64_nonneg:
  assumes "0 \<le> x"
  shows "0 \<le> binary64 x"
proof (cases "x = 0")
  case True
  then show ?thesis by (simp add: binary64_zero)
next
  case False
  have "0 \<le> x / 2 powi quantum x" using assms by simp
  then have "round_half_even (of_int 0) \<le> round_half_even (x / 2 powi quantum x)"
    by (intro rhe_mono) simp
  then have "0 \<le> round_half_even (x / 2 powi quantum x)" by (simp only: rhe_of_int)
  then show ?thesis using False by (simp add: binary64_def)
qed

text \<open>Rounding to nearest is monotone, also across a change of exponent.\<close>

lemma binary64_mono_pos:
  assumes "0 < x" "x \<le> y"
  shows "binary64 x \<le> binary64 y"
proof -
  from assms have y: "0 < y" by simp
  have qx: "quantum x = max (ilog2 x - 52) (- 1074)"
    and qy: "quantum y = max (ilog2 y - 52) (- 1074)"
    using assms by (simp_all add: quantum_def)
  have le: "quantum x \<le> quantum y"
    using ilog2_mono [OF assms] by (simp add: qx qy)
  have bx: "binary64 x = of_int (round_half_even (x / 2 powi quantum x)) * 2 powi quantum x"
    and "by": "binary64 y = of_int (round_half_even (y / 2 powi quantum y)) * 2 powi quantum y"
    using assms by (simp_all add: binary64_def)
  show ?thesis
  proof (cases "quantum x = quantum y")
    case True
    have "x / 2 powi quantum y \<le> y / 2 powi quantum y"
      using assms by (simp add: divide_right_mono)
    then have "round_half_even (x / 2 powi quantum y) \<le> round_half_even (y / 2 powi quantum y)"
      by (rule rhe_mono)
    then show ?thesis by (simp add: bx "by" True)
  next
    case False
    with le have "quantum x < quantum y" by simp
    moreover have "- 1074 \<le> quantum x" by (simp add: qx)
    ultimately have qy': "quantum y = ilog2 y - 52" unfolding qy by linarith
    have "ilog2 x - 52 \<le> quantum x" by (simp add: qx)
    with \<open>quantum x < quantum y\<close>
    have e1: "ilog2 x + 1 \<le> quantum x + 53" and e2: "quantum x + 53 \<le> quantum y + 52"
      by simp_all
    have "x < 2 powi (ilog2 x + 1)" by (rule ilog2_bounds(2) [OF assms(1)])
    also have "\<dots> \<le> 2 powi (quantum x + 53)" by (rule powi2_mono [OF e1])
    also have "\<dots> = 2 powi quantum x * 2 ^ 53" by (simp add: power_int_add)
    finally have "x / 2 powi quantum x \<le> of_int (2 ^ 53)"
      by (simp add: pos_divide_le_eq mult.commute)
    then have "round_half_even (x / 2 powi quantum x) \<le> round_half_even (of_int (2 ^ 53))"
      by (rule rhe_mono)
    then have "round_half_even (x / 2 powi quantum x) \<le> 2 ^ 53" by (simp only: rhe_of_int)
    then have "(of_int (round_half_even (x / 2 powi quantum x)) :: rat) \<le> of_int (2 ^ 53)"
      by (simp only: of_int_le_iff)
    then have "binary64 x \<le> of_int (2 ^ 53) * 2 powi quantum x"
      unfolding bx by (rule mult_right_mono) simp
    also have "\<dots> = 2 powi (quantum x + 53)" by (simp add: power_int_add)
    also have "\<dots> \<le> 2 powi (quantum y + 52)" by (rule powi2_mono [OF e2])
    finally have up: "binary64 x \<le> 2 powi (quantum y + 52)" .
    have "2 powi quantum y * 2 ^ 52 = (2::rat) powi (ilog2 y)"
      by (simp add: qy' power_int_diff)
    also have "\<dots> \<le> y" by (rule ilog2_bounds(1) [OF y])
    finally have "of_int (2 ^ 52) \<le> y / 2 powi quantum y"
      by (simp add: pos_le_divide_eq mult.commute)
    then have "round_half_even (of_int (2 ^ 52)) \<le> round_half_even (y / 2 powi quantum y)"
      by (rule rhe_mono)
    then have "2 ^ 52 \<le> round_half_even (y / 2 powi quantum y)" by (simp only: rhe_of_int)
    then have "(of_int (2 ^ 52) :: rat) \<le> of_int (round_half_even (y / 2 powi quantum y))"
      by (simp only: of_int_le_iff)
    then have "of_int (2 ^ 52) * 2 powi quantum y \<le> binary64 y"
      unfolding "by" by (rule mult_right_mono) simp
    moreover have "of_int (2 ^ 52) * 2 powi quantum y = (2::rat) powi (quantum y + 52)"
      by (simp add: power_int_add)
    ultimately show ?thesis using up by linarith
  qed
qed

lemma binary64_mono:
  assumes "x \<le> y"
  shows "binary64 x \<le> binary64 y"
proof -
  consider "0 < x" | "x \<le> 0" "0 \<le> y" | "y < 0" by linarith
  then show ?thesis
  proof cases
    case 1
    then show ?thesis using assms by (rule binary64_mono_pos)
  next
    case 2
    have "0 \<le> binary64 (- x)" "0 \<le> binary64 y"
      using 2 by (simp_all add: binary64_nonneg)
    then show ?thesis by (simp add: binary64_minus)
  next
    case 3
    then have "binary64 (- y) \<le> binary64 (- x)"
      using assms by (intro binary64_mono_pos) simp_all
    then show ?thesis by (simp add: binary64_minus)
  qed
qed

section \<open>The error of one rounding\<close>

lemma rhe_error: "\<bar>of_int (round_half_even x) - x\<bar> \<le> 1 / 2"
proof -
  have "of_int \<lfloor>x\<rfloor> \<le> x" "x < of_int \<lfloor>x\<rfloor> + 1" by linarith+
  then show ?thesis by (auto simp add: round_half_even_def Let_def)
qed

lemma binary64_error:
  assumes "2 powi (- 1022) \<le> \<bar>x\<bar>"
  shows "\<bar>binary64 x - x\<bar> \<le> \<bar>x\<bar> / 2 ^ 53"
proof -
  have pos: "0 < \<bar>x\<bar>"
    using assms zero_less_power_int [of "2::rat" "- 1022"] by linarith
  then have nz: "x \<noteq> 0" by simp
  have "- 1022 \<le> ilog2 \<bar>x\<bar>"
  proof (rule ccontr)
    assume "\<not> - 1022 \<le> ilog2 \<bar>x\<bar>"
    then have "ilog2 \<bar>x\<bar> + 1 \<le> - 1022" by simp
    then have "(2::rat) powi (ilog2 \<bar>x\<bar> + 1) \<le> 2 powi (- 1022)" by (rule powi2_mono)
    then show False using ilog2_bounds(2) [OF pos] assms by linarith
  qed
  then have q: "quantum x = ilog2 \<bar>x\<bar> - 52" by (simp add: quantum_def)
  define z where "z = x / 2 powi quantum x"
  have x: "x = z * 2 powi quantum x" by (simp add: z_def)
  have "binary64 x - x = (of_int (round_half_even z) - z) * 2 powi quantum x"
    using nz by (simp add: binary64_def z_def algebra_simps)
  then have "\<bar>binary64 x - x\<bar> = \<bar>of_int (round_half_even z) - z\<bar> * 2 powi quantum x"
    by (simp add: abs_mult)
  also have "\<dots> \<le> 1 / 2 * 2 powi quantum x"
    by (rule mult_right_mono [OF rhe_error]) simp
  also have "\<dots> = 2 powi (ilog2 \<bar>x\<bar>) / 2 ^ 53"
    by (simp add: q power_int_diff)
  also have "\<dots> \<le> \<bar>x\<bar> / 2 ^ 53"
    using ilog2_bounds(1) [OF pos] by (simp add: divide_right_mono)
  finally show ?thesis .
qed

lemma binary64_error_any: "\<bar>binary64 x - x\<bar> \<le> (\<bar>x\<bar> + 1) / 2 ^ 53"
proof (cases "2 powi (- 1022) \<le> \<bar>x\<bar>")
  case True
  then have "\<bar>binary64 x - x\<bar> \<le> \<bar>x\<bar> / 2 ^ 53" by (rule binary64_error)
  also have "\<dots> \<le> (\<bar>x\<bar> + 1) / 2 ^ 53" by (intro divide_right_mono) simp_all
  finally show ?thesis .
next
  case False
  show ?thesis
  proof (cases "x = 0")
    case True
    then show ?thesis by (simp add: binary64_zero)
  next
    case nz: False
    then have pos: "0 < \<bar>x\<bar>" by simp
    have "ilog2 \<bar>x\<bar> \<le> - 1022"
    proof (rule ccontr)
      assume "\<not> ilog2 \<bar>x\<bar> \<le> - 1022"
      then have "- 1022 \<le> ilog2 \<bar>x\<bar>" by simp
      then have "(2::rat) powi (- 1022) \<le> 2 powi (ilog2 \<bar>x\<bar>)" by (rule powi2_mono)
      then show False using ilog2_bounds(1) [OF pos] False by linarith
    qed
    then have q: "quantum x = - 1074" by (simp add: quantum_def)
    define d :: rat where "d = 2 powi (- 1074)"
    have d: "0 < d" "d \<le> 1 / 2 ^ 52"
      using powi2_mono [of "- 1074" "- 52"] by (simp_all add: d_def power_int_minus_divide)
    define z where "z = x / d"
    have bx: "binary64 x = of_int (round_half_even z) * d"
      using nz by (simp add: binary64_def q z_def d_def)
    have zd: "z * d = x" using d(1) by (simp add: z_def)
    have "binary64 x - x = (of_int (round_half_even z) - z) * d"
      unfolding bx by (simp add: left_diff_distrib zd)
    then have "\<bar>binary64 x - x\<bar> = \<bar>of_int (round_half_even z) - z\<bar> * d"
      using d(1) by (simp add: abs_mult)
    also have "\<dots> \<le> 1 / 2 * d"
      using d(1) by (intro mult_right_mono [OF rhe_error]) simp
    also have "\<dots> \<le> 1 / 2 ^ 53"
      using d(2) by simp
    also have "\<dots> \<le> (\<bar>x\<bar> + 1) / 2 ^ 53" by (intro divide_right_mono) simp_all
    finally show ?thesis .
  qed
qed

lemma binary64_error_bounded:
  assumes "\<bar>x\<bar> \<le> m"
  shows "\<bar>binary64 x - x\<bar> \<le> (m + 1) / 2 ^ 53"
proof -
  have "\<bar>binary64 x - x\<bar> \<le> (\<bar>x\<bar> + 1) / 2 ^ 53" by (rule binary64_error_any)
  also have "\<dots> \<le> (m + 1) / 2 ^ 53" using assms by (intro divide_right_mono) simp_all
  finally show ?thesis .
qed

section \<open>The values of the constants\<close>

lemma SECONDS_PER_YEAR_val: "SECONDS_PER_YEAR = 31536000"
  by code_simp

lemma START_VOLUME_KM3_val: "START_VOLUME_KM3 = 6530219459687219 / 140737488355328"
  by code_simp

lemma YEARLY_MELT_KM3_val: "YEARLY_MELT_KM3 = 5404319552844595 / 4503599627370496"
  by code_simp

lemma MELT_RATE_M3_PER_SEC_val: "MELT_RATE_M3_PER_SEC = 2677653888038965 / 70368744177664"
  by code_simp

lemma TRUCK_RATE_PER_SEC_val: "TRUCK_RATE_PER_SEC = 8568492441724689 / 2251799813685248"
  by code_simp

lemma rate_pos: "0 < MELT_RATE_M3_PER_SEC" "0 < TRUCK_RATE_PER_SEC"
  by (simp_all add: MELT_RATE_M3_PER_SEC_val TRUCK_RATE_PER_SEC_val)

section \<open>Melted volume and truck loads\<close>

lemma meltedM3_mono: "t \<le> t' \<Longrightarrow> meltedM3 t \<le> meltedM3 t'"
  unfolding meltedM3_def fmul_def using rate_pos(1)
  by (intro binary64_mono mult_right_mono) simp_all

lemma trucks_mono: "t \<le> t' \<Longrightarrow> trucks t \<le> trucks t'"
  unfolding trucks_def fmul_def using rate_pos(2)
  by (intro binary64_mono mult_right_mono) simp_all

lemma meltedM3_zero: "meltedM3 0 = 0"
  by (simp add: meltedM3_def fmul_def binary64_zero)

lemma trucks_zero: "trucks 0 = 0"
  by (simp add: trucks_def fmul_def binary64_zero)

lemma secondsSinceStart_mono:
  "now \<le> now' \<Longrightarrow> secondsSinceStart now \<le> secondsSinceStart now'"
  unfolding secondsSinceStart_def fsub_def fdiv_def
  by (intro binary64_mono divide_right_mono diff_right_mono) simp_all

lemma secondsSinceStart_at_start: "secondsSinceStart startOfYear = 0"
  by (simp add: secondsSinceStart_def fsub_def fdiv_def binary64_zero)

lemma one_ms_before: "secondsSinceStart (startOfYear - 1) = - (1152921504606847 / 1152921504606846976)"
  by code_simp

lemma one_ms_before_values:
  "meltedM3 (- (1152921504606847 / 1152921504606846976)) = - (685479395337975 / 18014398509481984)"
  "trucks (- (1152921504606847 / 1152921504606846976)) = - (4387068130163041 / 1152921504606846976)"
  unfolding meltedM3_def trucks_def fmul_def MELT_RATE_M3_PER_SEC_val TRUCK_RATE_PER_SEC_val
  by code_simp+

text \<open>
  C5.  For an elapsed time \<open>t \<ge> 0\<close> the melted volume and the truck loads are not negative,
  and both are monotonically non-decreasing in \<open>t\<close>.  When the current time is before the
  start of the year, the elapsed time, the melted volume and the truck loads are all
  negative: neither value is clamped at zero.
\<close>

theorem melted_trucks_sign_and_monotone:
  "(0 \<le> t \<longrightarrow> 0 \<le> meltedM3 t \<and> 0 \<le> trucks t) \<and>
   (t \<le> t' \<longrightarrow> meltedM3 t \<le> meltedM3 t' \<and> trucks t \<le> trucks t') \<and>
   (now < startOfYear \<longrightarrow>
      secondsSinceStart now < 0 \<and> meltedM3 (secondsSinceStart now) < 0 \<and>
      trucks (secondsSinceStart now) < 0)"
proof (intro conjI impI)
  assume "0 \<le> t"
  then show "0 \<le> meltedM3 t" using meltedM3_mono [of 0 t] by (simp add: meltedM3_zero)
  from \<open>0 \<le> t\<close> show "0 \<le> trucks t" using trucks_mono [of 0 t] by (simp add: trucks_zero)
next
  assume "t \<le> t'"
  then show "meltedM3 t \<le> meltedM3 t'" "trucks t \<le> trucks t'"
    by (rule meltedM3_mono, rule trucks_mono)
next
  assume "now < startOfYear"
  then have "secondsSinceStart now \<le> secondsSinceStart (startOfYear - 1)"
    by (intro secondsSinceStart_mono) simp
  then have le: "secondsSinceStart now \<le> - (1152921504606847 / 1152921504606846976)"
    by (simp only: one_ms_before)
  then show "secondsSinceStart now < 0" by linarith
  show "meltedM3 (secondsSinceStart now) < 0"
    using meltedM3_mono [OF le] by (simp add: one_ms_before_values)
  show "trucks (secondsSinceStart now) < 0"
    using trucks_mono [OF le] by (simp add: one_ms_before_values)
qed

theorem melted_trucks_sign_and_monotone_witness:
  "(0::rat) \<le> 1 \<and> (1::rat) \<le> 2 \<and> startOfYear - 1 < startOfYear \<and>
   0 \<le> meltedM3 1 \<and> 0 \<le> trucks 1 \<and> meltedM3 1 \<le> meltedM3 2 \<and> trucks 1 \<le> trucks 2 \<and>
   secondsSinceStart (startOfYear - 1) < 0 \<and>
   meltedM3 (secondsSinceStart (startOfYear - 1)) < 0 \<and>
   trucks (secondsSinceStart (startOfYear - 1)) < 0"
  using melted_trucks_sign_and_monotone [of 1 2 "startOfYear - 1"] by simp

section \<open>Remaining volume\<close>

lemma yearly_pos: "0 < YEARLY_MELT_KM3"
  by (simp add: YEARLY_MELT_KM3_val)

lemma remainingKm3_max:
  "remainingKm3 t = max 0 (fsub START_VOLUME_KM3 (fmul YEARLY_MELT_KM3 (fdiv t SECONDS_PER_YEAR)))"
  by (simp add: remainingKm3_def Let_def max_def)

lemma remainingKm3_nonneg: "0 \<le> remainingKm3 t"
  by (simp add: remainingKm3_max)

lemma remainingKm3_antimono:
  assumes "t \<le> t'"
  shows "remainingKm3 t' \<le> remainingKm3 t"
proof -
  have "fdiv t SECONDS_PER_YEAR \<le> fdiv t' SECONDS_PER_YEAR"
    unfolding fdiv_def SECONDS_PER_YEAR_val using assms
    by (intro binary64_mono divide_right_mono) simp_all
  then have "fmul YEARLY_MELT_KM3 (fdiv t SECONDS_PER_YEAR)
      \<le> fmul YEARLY_MELT_KM3 (fdiv t' SECONDS_PER_YEAR)"
    unfolding fmul_def using yearly_pos
    by (intro binary64_mono mult_left_mono) simp_all
  then have "fsub START_VOLUME_KM3 (fmul YEARLY_MELT_KM3 (fdiv t' SECONDS_PER_YEAR))
      \<le> fsub START_VOLUME_KM3 (fmul YEARLY_MELT_KM3 (fdiv t SECONDS_PER_YEAR))"
    unfolding fsub_def by (intro binary64_mono diff_left_mono)
  then show ?thesis unfolding remainingKm3_max by (rule max.mono [OF order_refl])
qed

lemma remainingKm3_end: "remainingKm3 1219392000 = 0"
  unfolding remainingKm3_def SECONDS_PER_YEAR_val START_VOLUME_KM3_val YEARLY_MELT_KM3_val
  by code_simp

lemma end_from_constants:
  "fdiv (fmul SECONDS_PER_YEAR START_VOLUME_KM3) YEARLY_MELT_KM3 = 1219392000"
  unfolding SECONDS_PER_YEAR_val START_VOLUME_KM3_val YEARLY_MELT_KM3_val
  by code_simp

lemma last_ms_before_end:
  "secondsSinceStart (startOfYear + 1219391999999) = 2557250371581903 / 2097152"
  "remainingKm3 (2557250371581903 / 2097152) = 5355 / 140737488355328"
  unfolding remainingKm3_def SECONDS_PER_YEAR_val START_VOLUME_KM3_val YEARLY_MELT_KM3_val
  by code_simp+

lemma one_year_after: "secondsSinceStart (startOfYear + 31536000000) = 31536000"
  by code_simp

lemma remainingKm3_one_year: "remainingKm3 31536000 = 6361334473660825 / 140737488355328"
  unfolding remainingKm3_def SECONDS_PER_YEAR_val START_VOLUME_KM3_val YEARLY_MELT_KM3_val
  by code_simp

lemma order_of_operations:
  "secondsSinceStart (startOfYear + 955078910637) = 8011782590400823 / 8388608"
  "remainingKm3 (8011782590400823 / 8388608) = 1415477942784855 / 140737488355328"
  "fsub START_VOLUME_KM3 (fdiv (fmul YEARLY_MELT_KM3 (8011782590400823 / 8388608)) SECONDS_PER_YEAR)
     = 707738971392427 / 70368744177664"
  unfolding remainingKm3_def SECONDS_PER_YEAR_val START_VOLUME_KM3_val YEARLY_MELT_KM3_val
  by code_simp+

lemma far_past_end:
  "binary64 (YEARLY_MELT_KM3 * binary64 (2500000000 / SECONDS_PER_YEAR))
     = 1673533680024353 / 17592186044416"
  unfolding SECONDS_PER_YEAR_val YEARLY_MELT_KM3_val by code_simp

lemma remainingKm3_near_exact:
  assumes "0 \<le> t"
  shows "\<bar>remainingKm3 t - max 0 (START_VOLUME_KM3 - YEARLY_MELT_KM3 * t / SECONDS_PER_YEAR)\<bar>
    \<le> 1 / 10 ^ 13"
proof (cases "t \<le> 2500000000")
  case True
  define a where "a = t / SECONDS_PER_YEAR"
  define a' where "a' = binary64 a"
  define b where "b = YEARLY_MELT_KM3 * a'"
  define b' where "b' = binary64 b"
  define r where "r = START_VOLUME_KM3 - b'"
  define r' where "r' = binary64 r"
  define u :: rat where "u = 1 / 2 ^ 53"
  have u: "0 < u" "u \<le> 1 / 1000000000000000" by (simp_all add: u_def)
  have y: "0 < YEARLY_MELT_KM3" "YEARLY_MELT_KM3 \<le> 121 / 100"
    and s: "0 < START_VOLUME_KM3" "START_VOLUME_KM3 \<le> 47"
    by (simp_all add: YEARLY_MELT_KM3_val START_VOLUME_KM3_val)
  have a: "0 \<le> a" "a \<le> 80"
    using assms True by (simp_all add: a_def SECONDS_PER_YEAR_val)
  then have ea: "\<bar>a' - a\<bar> \<le> 81 * u"
    using binary64_error_bounded [of a 80] by (simp add: a'_def u_def)
  have a'0: "0 \<le> a'" unfolding a'_def using a(1) by (rule binary64_nonneg)
  have a'1: "a' \<le> 81" using ea a(2) u by linarith
  have b0: "0 \<le> b" unfolding b_def using y(1) a'0 by simp
  have "b \<le> 121 / 100 * 81"
    unfolding b_def using y a'0 a'1 by (intro mult_mono) simp_all
  then have b1: "b \<le> 99" by simp
  have eb: "\<bar>b' - b\<bar> \<le> 100 * u"
    using binary64_error_bounded [of b 99] b0 b1 by (simp add: b'_def u_def)
  have b'0: "0 \<le> b'" unfolding b'_def using b0 by (rule binary64_nonneg)
  have b'1: "b' \<le> 100" using eb b1 u by linarith
  have "\<bar>r\<bar> \<le> 147" unfolding r_def using s b'0 b'1 by linarith
  then have er: "\<bar>r' - r\<bar> \<le> 148 * u"
    using binary64_error_bounded [of r 147] by (simp add: r'_def u_def)
  have "\<bar>b - YEARLY_MELT_KM3 * a\<bar> = YEARLY_MELT_KM3 * \<bar>a' - a\<bar>"
    using y(1) by (simp add: b_def abs_mult right_diff_distrib [symmetric])
  also have "\<dots> \<le> 121 / 100 * (81 * u)"
    using y ea by (intro mult_mono) simp_all
  finally have eya: "\<bar>b - YEARLY_MELT_KM3 * a\<bar> \<le> 99 * u" using u by linarith
  have "\<bar>r' - (START_VOLUME_KM3 - YEARLY_MELT_KM3 * a)\<bar> \<le> 347 * u"
    using er eb eya unfolding r_def by linarith
  then have "\<bar>max 0 r' - max 0 (START_VOLUME_KM3 - YEARLY_MELT_KM3 * a)\<bar> \<le> 347 * u"
    using u by (auto simp add: max_def)
  moreover have "remainingKm3 t = max 0 r'"
    by (simp add: remainingKm3_max r'_def r_def b'_def b_def a'_def a_def fsub_def fmul_def
        fdiv_def)
  moreover have "YEARLY_MELT_KM3 * a = YEARLY_MELT_KM3 * t / SECONDS_PER_YEAR"
    by (simp add: a_def)
  ultimately have "\<bar>remainingKm3 t
      - max 0 (START_VOLUME_KM3 - YEARLY_MELT_KM3 * t / SECONDS_PER_YEAR)\<bar> \<le> 347 * u"
    by simp
  moreover have "347 * u \<le> 1 / 10 ^ 13" by (simp add: u_def)
  ultimately show ?thesis by (rule order_trans)
next
  case False
  then have le: "2500000000 / SECONDS_PER_YEAR \<le> t / SECONDS_PER_YEAR"
    by (simp add: SECONDS_PER_YEAR_val divide_right_mono)
  have "YEARLY_MELT_KM3 * binary64 (2500000000 / SECONDS_PER_YEAR)
      \<le> YEARLY_MELT_KM3 * binary64 (t / SECONDS_PER_YEAR)"
    using yearly_pos binary64_mono [OF le] by (intro mult_left_mono) simp_all
  then have "1673533680024353 / 17592186044416
      \<le> fmul YEARLY_MELT_KM3 (fdiv t SECONDS_PER_YEAR)"
    unfolding fmul_def fdiv_def far_past_end [symmetric] by (rule binary64_mono)
  then have "START_VOLUME_KM3 - fmul YEARLY_MELT_KM3 (fdiv t SECONDS_PER_YEAR) \<le> 0"
    by (simp add: START_VOLUME_KM3_val)
  then have "fsub START_VOLUME_KM3 (fmul YEARLY_MELT_KM3 (fdiv t SECONDS_PER_YEAR)) \<le> 0"
    unfolding fsub_def using binary64_mono [of _ 0] by (simp add: binary64_zero)
  then have z: "remainingKm3 t = 0" by (simp add: remainingKm3_max)
  have "YEARLY_MELT_KM3 * (2500000000 / SECONDS_PER_YEAR)
      \<le> YEARLY_MELT_KM3 * (t / SECONDS_PER_YEAR)"
    using yearly_pos le by (intro mult_left_mono) simp_all
  then have "START_VOLUME_KM3 - YEARLY_MELT_KM3 * t / SECONDS_PER_YEAR \<le> 0"
    by (simp add: START_VOLUME_KM3_val YEARLY_MELT_KM3_val SECONDS_PER_YEAR_val)
  then show ?thesis by (simp add: z)
qed

text \<open>
  C1, as stated: the remaining volume is the exact value of
  \<open>max(0, startVolumeKm3 - yearlyLossKm3 * t / secondsPerYear)\<close>.  One year after the
  start the code yields 45.199999999999996, which is not the exact value of the formula
  on the program's constants; and 955078910.637 seconds after the start it does not even
  yield what the formula gives when each of its operations is rounded in the order
  written.
\<close>

theorem remainingKm3_exact_counterexample:
  "remainingKm3 (secondsSinceStart (startOfYear + 31536000000))
     \<noteq> max 0 (START_VOLUME_KM3
          - YEARLY_MELT_KM3 * secondsSinceStart (startOfYear + 31536000000) / SECONDS_PER_YEAR) \<and>
   remainingKm3 (secondsSinceStart (startOfYear + 955078910637))
     \<noteq> max 0 (fsub START_VOLUME_KM3
          (fdiv (fmul YEARLY_MELT_KM3 (secondsSinceStart (startOfYear + 955078910637)))
             SECONDS_PER_YEAR))"
  unfolding one_year_after remainingKm3_one_year order_of_operations
  by (simp add: SECONDS_PER_YEAR_val START_VOLUME_KM3_val YEARLY_MELT_KM3_val)

text \<open>
  C1, amended.  For every elapsed time \<open>t\<close> the remaining volume is the maximum of 0 and
  \<open>startVolumeKm3 - yearlyLossKm3 * (t / secondsPerYear)\<close> with the division, the
  multiplication and the subtraction each rounded to the nearest double.  It is never
  negative and it is non-increasing in \<open>t\<close>.  It is exactly 0 at
  \<open>t = secondsPerYear * startVolumeKm3 / yearlyLossKm3 = 1219392000\<close> and at every larger
  \<open>t\<close>, and it is still positive at every time value before that instant.  For \<open>t \<ge> 0\<close>
  it is within \<open>10 ^ - 13\<close> of the exact value of the formula.
\<close>

theorem remainingKm3_clamped_antitone:
  "remainingKm3 t =
     max 0 (fsub START_VOLUME_KM3 (fmul YEARLY_MELT_KM3 (fdiv t SECONDS_PER_YEAR))) \<and>
   0 \<le> remainingKm3 t \<and>
   (t \<le> t' \<longrightarrow> remainingKm3 t' \<le> remainingKm3 t) \<and>
   fdiv (fmul SECONDS_PER_YEAR START_VOLUME_KM3) YEARLY_MELT_KM3 = 1219392000 \<and>
   remainingKm3 1219392000 = 0 \<and>
   (1219392000 \<le> t \<longrightarrow> remainingKm3 t = 0) \<and>
   (now < startOfYear + 1219392000000 \<longrightarrow> 0 < remainingKm3 (secondsSinceStart now)) \<and>
   (0 \<le> t \<longrightarrow>
      \<bar>remainingKm3 t - max 0 (START_VOLUME_KM3 - YEARLY_MELT_KM3 * t / SECONDS_PER_YEAR)\<bar>
        \<le> 1 / 10 ^ 13)"
proof (intro conjI impI)
  show "remainingKm3 t =
      max 0 (fsub START_VOLUME_KM3 (fmul YEARLY_MELT_KM3 (fdiv t SECONDS_PER_YEAR)))"
    by (rule remainingKm3_max)
  show "0 \<le> remainingKm3 t" by (rule remainingKm3_nonneg)
  show "fdiv (fmul SECONDS_PER_YEAR START_VOLUME_KM3) YEARLY_MELT_KM3 = 1219392000"
    by (rule end_from_constants)
  show "remainingKm3 1219392000 = 0" by (rule remainingKm3_end)
next
  assume "t \<le> t'"
  then show "remainingKm3 t' \<le> remainingKm3 t" by (rule remainingKm3_antimono)
next
  assume "1219392000 \<le> t"
  then have "remainingKm3 t \<le> 0"
    using remainingKm3_antimono [of 1219392000 t] by (simp add: remainingKm3_end)
  then show "remainingKm3 t = 0" using remainingKm3_nonneg [of t] by linarith
next
  assume "now < startOfYear + 1219392000000"
  then have "secondsSinceStart now \<le> secondsSinceStart (startOfYear + 1219391999999)"
    by (intro secondsSinceStart_mono) simp
  then have "remainingKm3 (secondsSinceStart (startOfYear + 1219391999999))
      \<le> remainingKm3 (secondsSinceStart now)"
    by (rule remainingKm3_antimono)
  then show "0 < remainingKm3 (secondsSinceStart now)"
    by (simp add: last_ms_before_end)
next
  assume "0 \<le> t"
  then show "\<bar>remainingKm3 t
      - max 0 (START_VOLUME_KM3 - YEARLY_MELT_KM3 * t / SECONDS_PER_YEAR)\<bar> \<le> 1 / 10 ^ 13"
    by (rule remainingKm3_near_exact)
qed

theorem remainingKm3_clamped_antitone_witness:
  "(31536000::rat) \<le> 2000000000 \<and> (1219392000::rat) \<le> 2000000000 \<and>
   startOfYear < startOfYear + 1219392000000 \<and> (0::rat) \<le> 31536000 \<and>
   remainingKm3 2000000000 \<le> remainingKm3 31536000 \<and>
   remainingKm3 2000000000 = 0 \<and>
   0 < remainingKm3 (secondsSinceStart startOfYear) \<and>
   \<bar>remainingKm3 31536000
      - max 0 (START_VOLUME_KM3 - YEARLY_MELT_KM3 * 31536000 / SECONDS_PER_YEAR)\<bar> \<le> 1 / 10 ^ 13"
proof -
  have h: "(31536000::rat) \<le> 2000000000" "(1219392000::rat) \<le> 2000000000"
    "startOfYear < startOfYear + 1219392000000" "(0::rat) \<le> 31536000"
    by simp_all
  show ?thesis
    using remainingKm3_clamped_antitone [of 31536000 2000000000 startOfYear]
      remainingKm3_clamped_antitone [of 2000000000 2000000000 startOfYear] h
    by blast
qed

section \<open>The range of the counters\<close>

text \<open>
  A time value has magnitude at most \<open>8.64 * 10 ^ 15\<close>.  Over that range the three values
  stay far below \<open>10 ^ 21\<close>, where \<^verbatim>\<open>toFixed\<close> would change to exponent notation, and
  farther still below the largest double.
\<close>

lemma range_ends:
  "secondsSinceStart 8640000000000000 = 8638295932800"
  "secondsSinceStart (- 8640000000000000) = - 8641704067200"
  by code_simp+

lemma range_end_values:
  "meltedM3 8638295932800 = 5259236488767123 / 16"
  "meltedM3 (- 8641704067200) = - (1315327864109589 / 4)"
  "trucks 8638295932800 = 4207389191013699 / 128"
  "trucks (- 8641704067200) = - (8418098330301371 / 256)"
  "remainingKm3 (- 8641704067200) = 5650087305798355 / 17179869184"
  unfolding meltedM3_def trucks_def remainingKm3_def fmul_def MELT_RATE_M3_PER_SEC_val
    TRUCK_RATE_PER_SEC_val SECONDS_PER_YEAR_val START_VOLUME_KM3_val YEARLY_MELT_KM3_val
  by code_simp+

lemma counters_in_range:
  assumes "\<bar>now\<bar> \<le> 8640000000000000"
  shows "\<bar>meltedM3 (secondsSinceStart now)\<bar> < 10 ^ 15"
    and "\<bar>trucks (secondsSinceStart now)\<bar> < 10 ^ 15"
    and "remainingKm3 (secondsSinceStart now) < 10 ^ 15"
proof -
  define t where "t = secondsSinceStart now"
  have lo: "- 8641704067200 \<le> t" and hi: "t \<le> 8638295932800"
    using assms secondsSinceStart_mono [of "- 8640000000000000" now]
      secondsSinceStart_mono [of now 8640000000000000]
    by (simp_all add: t_def range_ends)
  show "\<bar>meltedM3 (secondsSinceStart now)\<bar> < 10 ^ 15"
    using meltedM3_mono [OF lo] meltedM3_mono [OF hi]
    by (simp add: t_def [symmetric] range_end_values)
  show "\<bar>trucks (secondsSinceStart now)\<bar> < 10 ^ 15"
    using trucks_mono [OF lo] trucks_mono [OF hi]
    by (simp add: t_def [symmetric] range_end_values)
  show "remainingKm3 (secondsSinceStart now) < 10 ^ 15"
    using remainingKm3_antimono [OF lo]
    by (simp add: t_def [symmetric] range_end_values)
qed

section \<open>Melted volume as a rounded product\<close>

lemma one_ms_after: "secondsSinceStart (startOfYear + 1) = 1152921504606847 / 1152921504606846976"
  by code_simp

lemma elapsed_not_tiny:
  "secondsSinceStart now = 0 \<or> 1152921504606847 / 1152921504606846976 \<le> \<bar>secondsSinceStart now\<bar>"
proof -
  consider "now = startOfYear" | "now < startOfYear" | "startOfYear < now" by linarith
  then show ?thesis
  proof cases
    case 1
    then show ?thesis by (simp add: secondsSinceStart_at_start)
  next
    case 2
    then have "secondsSinceStart now \<le> secondsSinceStart (startOfYear - 1)"
      by (intro secondsSinceStart_mono) simp
    then show ?thesis by (simp add: one_ms_before)
  next
    case 3
    then have "secondsSinceStart (startOfYear + 1) \<le> secondsSinceStart now"
      by (intro secondsSinceStart_mono) simp
    then show ?thesis by (simp add: one_ms_after)
  qed
qed

lemma meltedM3_error:
  "\<bar>meltedM3 (secondsSinceStart now) - secondsSinceStart now * MELT_RATE_M3_PER_SEC\<bar>
     \<le> \<bar>secondsSinceStart now * MELT_RATE_M3_PER_SEC\<bar> / 2 ^ 53"
proof -
  define t where "t = secondsSinceStart now"
  from elapsed_not_tiny [of now]
  consider "t = 0" | "1152921504606847 / 1152921504606846976 \<le> \<bar>t\<bar>"
    unfolding t_def by blast
  then have "\<bar>meltedM3 t - t * MELT_RATE_M3_PER_SEC\<bar> \<le> \<bar>t * MELT_RATE_M3_PER_SEC\<bar> / 2 ^ 53"
  proof cases
    case 1
    then show ?thesis by (simp add: meltedM3_zero)
  next
    case 2
    have "(2::rat) powi (- 1022) \<le> 1152921504606847 / 1152921504606846976 * MELT_RATE_M3_PER_SEC"
      by (simp add: MELT_RATE_M3_PER_SEC_val power_int_minus_divide)
    also have "\<dots> \<le> \<bar>t\<bar> * MELT_RATE_M3_PER_SEC"
      using 2 rate_pos(1) by (intro mult_right_mono) simp_all
    also have "\<dots> = \<bar>t * MELT_RATE_M3_PER_SEC\<bar>"
      using rate_pos(1) by (simp add: abs_mult)
    finally show ?thesis unfolding meltedM3_def fmul_def by (rule binary64_error)
  qed
  then show ?thesis by (simp add: t_def)
qed

lemma meltedM3_values:
  "meltedM3 1 = 2677653888038965 / 70368744177664"
  "meltedM3 5 = 1673533680024353 / 8796093022208"
  "meltedM3 6 = 8032961664116895 / 35184372088832"
  unfolding meltedM3_def fmul_def MELT_RATE_M3_PER_SEC_val
  by code_simp+

lemma rounded_sum: "binary64 (2677653888038965 / 70368744177664 + 1673533680024353 / 8796093022208)
    = 4016480832058447 / 17592186044416"
  by code_simp

text \<open>
  C2, as stated: the melted volume is exactly \<open>t * meltRateVolumePerSec\<close>, a linear function
  of \<open>t\<close>.  At \<open>t = 5\<close> it is not the exact product, and it is not additive: the volumes
  melted in 1 and in 5 seconds do not add up to the volume melted in 6 seconds, neither
  exactly nor when the sum is rounded as the code would round it.
\<close>

theorem meltedM3_linear_counterexample:
  "meltedM3 5 \<noteq> 5 * MELT_RATE_M3_PER_SEC \<and>
   meltedM3 1 + meltedM3 5 \<noteq> meltedM3 6 \<and>
   binary64 (meltedM3 1 + meltedM3 5) \<noteq> meltedM3 6"
  unfolding meltedM3_values rounded_sum
  by (simp add: MELT_RATE_M3_PER_SEC_val)

text \<open>
  C2, amended.  For every elapsed time \<open>t\<close>, positive, zero or negative, the melted volume
  is the product \<open>t * meltRateVolumePerSec\<close> rounded once to the nearest double, with no
  clamp and no offset: it is 0 at \<open>t = 0\<close>, it is odd in \<open>t\<close>, and at every time value it
  differs from the exact product by at most the fraction \<open>2 ^ - 53\<close> of that product.
\<close>

theorem meltedM3_rounded_product:
  "meltedM3 t = binary64 (t * MELT_RATE_M3_PER_SEC) \<and>
   meltedM3 0 = 0 \<and>
   meltedM3 (- t) = - meltedM3 t \<and>
   \<bar>meltedM3 (secondsSinceStart now) - secondsSinceStart now * MELT_RATE_M3_PER_SEC\<bar>
     \<le> \<bar>secondsSinceStart now * MELT_RATE_M3_PER_SEC\<bar> / 2 ^ 53"
proof (intro conjI)
  show "meltedM3 t = binary64 (t * MELT_RATE_M3_PER_SEC)"
    by (simp add: meltedM3_def fmul_def)
  show "meltedM3 0 = 0" by (rule meltedM3_zero)
  show "meltedM3 (- t) = - meltedM3 t"
    using binary64_minus [of "t * MELT_RATE_M3_PER_SEC"] by (simp add: meltedM3_def fmul_def)
  show "\<bar>meltedM3 (secondsSinceStart now) - secondsSinceStart now * MELT_RATE_M3_PER_SEC\<bar>
     \<le> \<bar>secondsSinceStart now * MELT_RATE_M3_PER_SEC\<bar> / 2 ^ 53"
    by (rule meltedM3_error)
qed

theorem meltedM3_rounded_product_witness:
  "meltedM3 5 = 1673533680024353 / 8796093022208 \<and>
   meltedM3 (- 5) = - (1673533680024353 / 8796093022208) \<and>
   \<bar>meltedM3 (secondsSinceStart (startOfYear + 1))
      - secondsSinceStart (startOfYear + 1) * MELT_RATE_M3_PER_SEC\<bar>
     \<le> \<bar>secondsSinceStart (startOfYear + 1) * MELT_RATE_M3_PER_SEC\<bar> / 2 ^ 53"
  using meltedM3_rounded_product [of 5 "startOfYear + 1"] meltedM3_values(2) by simp

section \<open>Decimal digits\<close>

declare decimal.simps [simp del]

lemma floor_rat_numeral: "\<lfloor>numeral a / numeral b :: rat\<rfloor> = numeral a div numeral b"
  using floor_divide_of_int_eq [of "numeral a" "numeral b", where ?'a = rat] by simp

lemma digit_cases:
  assumes "d < (10::nat)"
  shows "d = 0 \<or> d = 1 \<or> d = 2 \<or> d = 3 \<or> d = 4 \<or> d = 5 \<or> d = 6 \<or> d = 7 \<or> d = 8 \<or> d = 9"
  using assms by arith

lemma is_digit_digit_char: "d < 10 \<Longrightarrow> is_digit (digit_char d)"
  using digit_cases [of d] by (auto simp add: digit_char_def is_digit_def)

lemma is_digit_is_word: "is_digit c \<Longrightarrow> is_word c"
  by (simp add: is_digit_def is_word_def Let_def)

lemma decimal_digits: "list_all is_digit (decimal n)"
proof (induction n rule: decimal.induct)
  case (1 n)
  show ?case
  proof (cases "n < 10")
    case True
    then show ?thesis by (subst decimal.simps) (simp add: is_digit_digit_char)
  next
    case False
    then show ?thesis using 1 by (subst decimal.simps) (simp add: is_digit_digit_char)
  qed
qed

lemma decimal_not_Nil: "decimal n \<noteq> []"
  by (subst decimal.simps) simp

lemma decimal_small: "n < 10 \<Longrightarrow> decimal n = [digit_char n]"
  by (subst decimal.simps) simp

lemma decimal_step: "10 \<le> n \<Longrightarrow> decimal n = decimal (n div 10) @ [digit_char (n mod 10)]"
  by (subst decimal.simps) simp

lemma digit_char_0: "digit_char 0 = CHR ''0''"
  by (simp add: digit_char_def)

lemma put_point_2:
  "put_point 2 (decimal n) =
     decimal (n div 100) @ ''.'' @ [digit_char (n div 10 mod 10), digit_char (n mod 10)]"
proof -
  consider "n < 10" | "10 \<le> n" "n < 100" | "100 \<le> n" by linarith
  then show ?thesis
  proof cases
    case 1
    then have "n div 100 = 0" "n div 10 = 0" by simp_all
    then show ?thesis using 1
      by (simp add: put_point_def decimal_small numeral_3_eq_3 Let_def digit_char_0)
  next
    case 2
    then have z: "n div 100 = 0" and s: "n div 10 < 10" by simp_all
    have "decimal n = [digit_char (n div 10), digit_char (n mod 10)]"
      using 2 s by (simp add: decimal_step decimal_small)
    then show ?thesis using s
      by (simp add: put_point_def z decimal_small [of 0] Let_def digit_char_0)
  next
    case 3
    then have "10 \<le> n" "10 \<le> n div 10" by simp_all
    moreover have "n div 10 div 10 = n div 100" by (simp add: div_mult2_eq [symmetric])
    ultimately have d: "decimal n =
        decimal (n div 100) @ [digit_char (n div 10 mod 10), digit_char (n mod 10)]"
      by (simp add: decimal_step)
    have "Suc 0 \<le> length (decimal (n div 100))"
      using decimal_not_Nil [of "n div 100"] by (cases "decimal (n div 100)") simp_all
    then show ?thesis
      by (simp add: put_point_def d Let_def)
  qed
qed

lemma nearest_scaled_error: "\<bar>of_nat (nearest_scaled f x) - \<bar>x\<bar> * 10 ^ f\<bar> \<le> 1 / 2"
proof -
  define y where "y = \<bar>x\<bar> * 10 ^ f"
  have "0 \<le> y" by (simp add: y_def)
  then have "0 \<le> \<lfloor>y + 1 / 2\<rfloor>" by simp
  then have "(of_nat (nat \<lfloor>y + 1 / 2\<rfloor>) :: rat) = of_int \<lfloor>y + 1 / 2\<rfloor>" by simp
  moreover have "of_int \<lfloor>y + 1 / 2\<rfloor> \<le> y + 1 / 2" "y + 1 / 2 < of_int \<lfloor>y + 1 / 2\<rfloor> + 1"
    by linarith+
  ultimately show ?thesis unfolding nearest_scaled_def y_def [symmetric] by linarith
qed

section \<open>The regular expression and the grouping\<close>

lemma lookahead_digits:
  "list_all is_digit s \<Longrightarrow> lookahead s = (s \<noteq> [] \<and> length s mod 3 = 0)"
proof (induction s rule: lookahead.induct)
  case (1 a b c rest)
  then show ?case by (cases rest) (auto simp add: mod_Suc)
qed simp_all

lemma group_right_snoc:
  "group_right (xs @ [c]) =
     group_right xs @ (if xs \<noteq> [] \<and> length xs mod 3 = 0 then [CHR '','', c] else [c])"
proof (induction xs rule: group_right.induct)
  case (1 a b c' d rest)
  then show ?case by (simp add: mod_Suc)
qed simp_all

lemma grouped_Cons:
  "grouped (c # cs) = c # (if cs \<noteq> [] \<and> length cs mod 3 = 0 then '','' else []) @ grouped cs"
  by (simp add: grouped_def group_right_snoc)

lemma replace_matches_digits:
  "list_all is_digit s \<Longrightarrow> is_digit p \<Longrightarrow>
   replace_matches (Some p) s =
     (if s \<noteq> [] \<and> length s mod 3 = 0 then '','' else []) @ grouped s"
proof (induction s arbitrary: p)
  case Nil
  then show ?case by (simp add: matches_def grouped_def)
next
  case (Cons c cs)
  then have c: "is_digit c" and cs: "list_all is_digit cs" by simp_all
  have "matches (Some p) (c # cs) = (length (c # cs) mod 3 = 0)"
    using Cons.prems lookahead_digits [of "c # cs"] c
    by (simp add: matches_def not_boundary_def is_digit_is_word)
  then show ?case
    using Cons.IH [OF cs c] by (simp add: grouped_Cons)
qed

lemma formatNumber_digits:
  assumes "list_all is_digit ds"
  shows "formatNumber ds = grouped ds"
proof (cases ds)
  case Nil
  then show ?thesis by (simp add: formatNumber_def matches_def grouped_def)
next
  case (Cons c cs)
  with assms have c: "is_digit c" and cs: "list_all is_digit cs" by simp_all
  have "\<not> matches None (c # cs)"
    using c by (simp add: matches_def not_boundary_def is_digit_is_word)
  then show ?thesis
    using replace_matches_digits [OF cs c] by (simp add: formatNumber_def Cons grouped_Cons)
qed

lemma formatNumber_minus_digits:
  assumes "list_all is_digit ds" "ds \<noteq> []"
  shows "formatNumber (''-'' @ ds) = ''-'' @ grouped ds"
proof -
  from assms obtain c cs where ds: "ds = c # cs" by (cases ds) auto
  with assms have c: "is_digit c" and cs: "list_all is_digit cs" by simp_all
  have minus: "\<not> is_word (CHR ''-'')" "\<not> is_digit (CHR ''-'')"
    by (simp_all add: is_word_def is_digit_def)
  have "\<not> matches None (CHR ''-'' # c # cs)"
    using minus by (cases cs) (simp_all add: matches_def)
  moreover have "\<not> matches (Some (CHR ''-'')) (c # cs)"
    using c minus by (simp add: matches_def not_boundary_def is_digit_is_word)
  ultimately show ?thesis
    using replace_matches_digits [OF cs c] by (simp add: formatNumber_def ds grouped_Cons)
qed

lemma group_right_filter:
  "filter (\<lambda>c. c \<noteq> CHR '','') (group_right xs) = filter (\<lambda>c. c \<noteq> CHR '','') xs"
  by (induction xs rule: group_right.induct) simp_all

lemma grouped_filter:
  "filter (\<lambda>c. c \<noteq> CHR '','') (grouped xs) = filter (\<lambda>c. c \<noteq> CHR '','') xs"
  by (simp add: grouped_def group_right_filter rev_filter [symmetric])


section \<open>The strings of the display\<close>

lemma digits_no_comma:
  "list_all is_digit ds \<Longrightarrow> filter (\<lambda>c. c \<noteq> CHR '','') ds = ds"
  by (induction ds) (auto simp add: is_digit_def)

lemma toFixed_0: "toFixed 0 x = (if x < 0 then ''-'' else []) @ decimal (nearest_scaled 0 x)"
  by (simp add: toFixed_def put_point_def)

lemma toFixed_2:
  "0 \<le> x \<Longrightarrow> toFixed 2 x =
     decimal (nearest_scaled 2 x div 100) @ ''.'' @
       [digit_char (nearest_scaled 2 x div 10 mod 10), digit_char (nearest_scaled 2 x mod 10)]"
  by (simp add: toFixed_def put_point_2)

lemma formatNumber_toFixed_0:
  "formatNumber (toFixed 0 x) =
     (if x < 0 then ''-'' else []) @ grouped (decimal (nearest_scaled 0 x))"
  using formatNumber_digits [OF decimal_digits, of "nearest_scaled 0 x"]
    formatNumber_minus_digits [OF decimal_digits decimal_not_Nil, of "nearest_scaled 0 x"]
  by (simp add: toFixed_0)

lemma remainingKm3_start: "remainingKm3 0 = 6530219459687219 / 140737488355328"
  unfolding remainingKm3_def SECONDS_PER_YEAR_val START_VOLUME_KM3_val YEARLY_MELT_KM3_val
  by code_simp

lemma decimal_examples:
  "decimal 0 = ''0''" "decimal 999 = ''999''" "decimal 1000 = ''1000''"
  "decimal 1234567 = ''1234567''"
  by (simp_all add: decimal_small decimal_step digit_char_def)

lemma formatNumber_examples:
  "formatNumber ''0'' = ''0''" "formatNumber ''999'' = ''999''"
  "formatNumber ''1000'' = ''1,000''" "formatNumber ''1234567'' = ''1,234,567''"
  "formatNumber ''-0'' = ''-0''" "formatNumber ''-1234567'' = ''-1,234,567''"
  by (simp_all add: formatNumber_def matches_def not_boundary_def is_digit_def is_word_def)

lemma display_at_start:
  "updateCounters startOfYear = \<lparr>volume_text = ''46.40'', melted_text = ''0'', trucks_text = ''0''\<rparr>"
proof -
  have "toFixed 2 (6530219459687219 / 140737488355328) = ''46.40''"
    by (simp add: toFixed_def nearest_scaled_def put_point_def decimal_small decimal_step digit_char_def
        Let_def floor_rat_numeral)
  moreover have "toFixed 0 0 = ''0''"
    by (simp add: toFixed_def nearest_scaled_def put_point_def decimal_small digit_char_def)
  ultimately show ?thesis
    by (simp add: updateCounters_def secondsSinceStart_at_start remainingKm3_start
        meltedM3_zero trucks_zero formatNumber_examples)
qed

text \<open>
  C4.  At every time value the remaining volume is shown with exactly two decimal places,
  as the nearest multiple of 0.01.  The melted volume and the truck loads are shown as the
  nearest whole number, its digits grouped by a separator every three digits from the right
  with none in front and no decimal part, after the sign when the value is negative;
  taking the separators out gives the digits back.  The numbers 1234567, 999 and 1000
  format to \<open>1,234,567\<close>, \<open>999\<close> and \<open>1,000\<close>, and at the start of the year the three regions
  show \<open>46.40\<close>, \<open>0\<close> and \<open>0\<close>.
\<close>

theorem display_formats:
  "(let t = secondsSinceStart now; d = updateCounters now;
        v = nearest_scaled 2 (remainingKm3 t);
        m = nearest_scaled 0 (meltedM3 t);
        k = nearest_scaled 0 (trucks t)
    in volume_text d =
         decimal (v div 100) @ ''.'' @ [digit_char (v div 10 mod 10), digit_char (v mod 10)] \<and>
       \<bar>of_nat v - remainingKm3 t * 100\<bar> \<le> 1 / 2 \<and>
       melted_text d = (if meltedM3 t < 0 then ''-'' else []) @ grouped (decimal m) \<and>
       \<bar>of_nat m - \<bar>meltedM3 t\<bar>\<bar> \<le> 1 / 2 \<and>
       trucks_text d = (if trucks t < 0 then ''-'' else []) @ grouped (decimal k) \<and>
       \<bar>of_nat k - \<bar>trucks t\<bar>\<bar> \<le> 1 / 2) \<and>
   list_all is_digit (decimal n) \<and>
   filter (\<lambda>c. c \<noteq> CHR '','') (grouped (decimal n)) = decimal n \<and>
   hd (grouped (decimal n)) = hd (decimal n) \<and>
   formatNumber (decimal 1234567) = ''1,234,567'' \<and>
   formatNumber (decimal 999) = ''999'' \<and>
   formatNumber (decimal 1000) = ''1,000'' \<and>
   updateCounters startOfYear =
     \<lparr>volume_text = ''46.40'', melted_text = ''0'', trucks_text = ''0''\<rparr>"
proof -
  define t where "t = secondsSinceStart now"
  have v: "volume_text (updateCounters now) =
      decimal (nearest_scaled 2 (remainingKm3 t) div 100) @ ''.'' @
        [digit_char (nearest_scaled 2 (remainingKm3 t) div 10 mod 10),
         digit_char (nearest_scaled 2 (remainingKm3 t) mod 10)]"
    using toFixed_2 [OF remainingKm3_nonneg, of t] by (simp add: updateCounters_def t_def Let_def)
  have ve: "\<bar>of_nat (nearest_scaled 2 (remainingKm3 t)) - remainingKm3 t * 100\<bar> \<le> 1 / 2"
    using nearest_scaled_error [of 2 "remainingKm3 t"] remainingKm3_nonneg [of t] by simp
  have m: "melted_text (updateCounters now) =
      (if meltedM3 t < 0 then ''-'' else []) @ grouped (decimal (nearest_scaled 0 (meltedM3 t)))"
    by (simp add: updateCounters_def t_def formatNumber_toFixed_0 Let_def)
  have me: "\<bar>of_nat (nearest_scaled 0 (meltedM3 t)) - \<bar>meltedM3 t\<bar>\<bar> \<le> 1 / 2"
    using nearest_scaled_error [of 0 "meltedM3 t"] by simp
  have k: "trucks_text (updateCounters now) =
      (if trucks t < 0 then ''-'' else []) @ grouped (decimal (nearest_scaled 0 (trucks t)))"
    by (simp add: updateCounters_def t_def formatNumber_toFixed_0 Let_def)
  have ke: "\<bar>of_nat (nearest_scaled 0 (trucks t)) - \<bar>trucks t\<bar>\<bar> \<le> 1 / 2"
    using nearest_scaled_error [of 0 "trucks t"] by simp
  have f: "filter (\<lambda>c. c \<noteq> CHR '','') (grouped (decimal n)) = decimal n"
    by (simp add: grouped_filter digits_no_comma [OF decimal_digits])
  have h: "hd (grouped (decimal n)) = hd (decimal n)"
    using decimal_not_Nil [of n] by (cases "decimal n") (simp_all add: grouped_Cons)
  have e: "formatNumber (decimal 1234567) = ''1,234,567''" "formatNumber (decimal 999) = ''999''"
    "formatNumber (decimal 1000) = ''1,000''"
    by (simp_all only: decimal_examples formatNumber_examples)
  show ?thesis
    unfolding Let_def t_def [symmetric]
    using v ve m me k ke f h e decimal_digits [of n] display_at_start by blast
qed

theorem display_formats_witness:
  "volume_text (updateCounters startOfYear) = ''46.40'' \<and>
   melted_text (updateCounters startOfYear) = ''0'' \<and>
   trucks_text (updateCounters startOfYear) = ''0'' \<and>
   formatNumber (decimal 1234567) = ''1,234,567'' \<and>
   filter (\<lambda>c. c \<noteq> CHR '','') (grouped (decimal 1234567)) = decimal 1234567"
  using display_formats [of startOfYear 1234567] by simp

text \<open>
  C10.  A negative whole number keeps its minus sign in front and only its digits are
  grouped: \<open>-1234567\<close> formats to \<open>-1,234,567\<close>.  A value strictly between -0.5 and 0 is
  shown as \<open>-0\<close>, which is what the melted volume and the truck loads show one millisecond
  before the start of the year.
\<close>

theorem formatNumber_negative:
  "formatNumber ''-1234567'' = ''-1,234,567'' \<and>
   (list_all is_digit ds \<and> ds \<noteq> [] \<longrightarrow> formatNumber (''-'' @ ds) = ''-'' @ grouped ds) \<and>
   (x < 0 \<longrightarrow>
      formatNumber (toFixed 0 x) = ''-'' @ grouped (decimal (nearest_scaled 0 x))) \<and>
   (- (1 / 2) < y \<and> y < 0 \<longrightarrow> toFixed 0 y = ''-0'' \<and> formatNumber (toFixed 0 y) = ''-0'') \<and>
   melted_text (updateCounters (startOfYear - 1)) = ''-0'' \<and>
   trucks_text (updateCounters (startOfYear - 1)) = ''-0''"
proof -
  have small: "toFixed 0 z = ''-0''" if "- (1 / 2) < z" "z < 0" for z :: rat
  proof -
    from that have "\<lfloor>\<bar>z\<bar> + 1 / 2\<rfloor> = 0" by (intro floor_unique) simp_all
    then have "nearest_scaled 0 z = 0" by (simp add: nearest_scaled_def)
    then show ?thesis using that by (simp add: toFixed_0 decimal_examples)
  qed
  have a: "list_all is_digit ds \<and> ds \<noteq> [] \<longrightarrow> formatNumber (''-'' @ ds) = ''-'' @ grouped ds"
    using formatNumber_minus_digits [of ds] by blast
  have b: "x < 0 \<longrightarrow>
      formatNumber (toFixed 0 x) = ''-'' @ grouped (decimal (nearest_scaled 0 x))"
    by (simp add: formatNumber_toFixed_0)
  have c: "- (1 / 2) < y \<and> y < 0 \<longrightarrow> toFixed 0 y = ''-0'' \<and> formatNumber (toFixed 0 y) = ''-0''"
    using small [of y] by (auto simp add: formatNumber_examples)
  have "toFixed 0 (meltedM3 (secondsSinceStart (startOfYear - 1))) = ''-0''"
    "toFixed 0 (trucks (secondsSinceStart (startOfYear - 1))) = ''-0''"
    unfolding one_ms_before one_ms_before_values by (rule small; simp)+
  then have d: "melted_text (updateCounters (startOfYear - 1)) = ''-0''"
    "trucks_text (updateCounters (startOfYear - 1)) = ''-0''"
    by (simp_all add: updateCounters_def formatNumber_examples Let_def)
  show ?thesis using a b c d formatNumber_examples(6) by blast
qed

theorem formatNumber_negative_witness:
  "list_all is_digit ''1234567'' \<and> ''1234567'' \<noteq> [] \<and> (- 1234567 :: rat) < 0 \<and>
   - (1 / 2) < (- (1 / 4) :: rat) \<and> (- (1 / 4) :: rat) < 0 \<and>
   formatNumber (''-'' @ ''1234567'') = ''-'' @ grouped ''1234567'' \<and>
   formatNumber (toFixed 0 (- 1234567)) = ''-'' @ grouped (decimal (nearest_scaled 0 (- 1234567))) \<and>
   toFixed 0 (- (1 / 4)) = ''-0'' \<and> formatNumber (toFixed 0 (- (1 / 4))) = ''-0''"
proof -
  have p: "list_all is_digit ''1234567'' \<and> ''1234567'' \<noteq> []"
    by (simp add: is_digit_def)
  have q: "(- 1234567 :: rat) < 0" "- (1 / 2) < (- (1 / 4) :: rat) \<and> (- (1 / 4) :: rat) < 0"
    by simp_all
  show ?thesis
    using formatNumber_negative [of "''1234567''" "- 1234567" "- (1 / 4)"] p q by blast
qed

section \<open>One year after the start\<close>

lemma TRUCK_CAPACITY_L_val: "TRUCK_CAPACITY_L = 10000"
  by code_simp

lemma one_year_values:
  "meltedM3 31536000 = 1200000000"
  "trucks 31536000 = 8053063680000001 / 67108864"
  unfolding meltedM3_def trucks_def fmul_def MELT_RATE_M3_PER_SEC_val TRUCK_RATE_PER_SEC_val
  by code_simp+

lemma literal_45_2: "binary64 (452 / 10) = 3180667236830413 / 70368744177664"
  by code_simp

lemma display_one_year:
  "updateCounters (startOfYear + 31536000000) =
     \<lparr>volume_text = ''45.20'', melted_text = ''1,200,000,000'', trucks_text = ''120,000,000''\<rparr>"
proof -
  have "toFixed 2 (6361334473660825 / 140737488355328) = ''45.20''"
    by (simp add: toFixed_def nearest_scaled_def put_point_def decimal_small decimal_step digit_char_def
        Let_def floor_rat_numeral)
  moreover have "toFixed 0 1200000000 = ''1200000000''"
    by (simp add: toFixed_def nearest_scaled_def put_point_def decimal_small decimal_step
        digit_char_def floor_rat_numeral)
  moreover have "toFixed 0 (8053063680000001 / 67108864) = ''120000000''"
    by (simp add: toFixed_def nearest_scaled_def put_point_def decimal_small decimal_step digit_char_def
        floor_rat_numeral)
  moreover have "formatNumber ''1200000000'' = ''1,200,000,000''"
    "formatNumber ''120000000'' = ''120,000,000''"
    by (simp_all add: formatNumber_def matches_def not_boundary_def is_digit_def is_word_def)
  ultimately show ?thesis
    by (simp add: updateCounters_def one_year_after remainingKm3_one_year one_year_values)
qed

text \<open>
  C3, as stated: one year after the start the remaining volume is exactly 45.2 and the
  truck loads are exactly 1.2e8.  The code yields neither: the remaining volume is not
  45.2, not even the double that the literal \<open>45.2\<close> denotes, and the truck loads are not
  120000000.
\<close>

theorem one_year_exact_counterexample:
  "remainingKm3 (secondsSinceStart (startOfYear + 31536000000)) \<noteq> 452 / 10 \<and>
   remainingKm3 (secondsSinceStart (startOfYear + 31536000000)) \<noteq> binary64 (452 / 10) \<and>
   trucks (secondsSinceStart (startOfYear + 31536000000)) \<noteq> 120000000"
  unfolding one_year_after remainingKm3_one_year one_year_values literal_45_2
  by simp

text \<open>
  C3, amended.  The rates are derived from the constants as the claim says, each operation
  rounded to the nearest double.  With the program's constants, at
  \<open>t = secondsPerYear = 31536000\<close> the melted volume is exactly 1.2e9; the remaining volume
  is 45.199999999999996, the double next below the one of \<open>45.2\<close>, and the truck loads are
  \<open>120000000 + 2 ^ - 26\<close>, the double next above 1.2e8.  The regions show \<open>45.20\<close>,
  \<open>1,200,000,000\<close> and \<open>120,000,000\<close>.
\<close>

theorem one_year_scenario:
  "MELT_RATE_M3_PER_SEC = fdiv (fmul YEARLY_MELT_KM3 (binary64 (10 ^ 9))) SECONDS_PER_YEAR \<and>
   MELT_RATE_L_PER_SEC = fmul MELT_RATE_M3_PER_SEC 1000 \<and>
   TRUCK_RATE_PER_SEC = fdiv MELT_RATE_L_PER_SEC TRUCK_CAPACITY_L \<and>
   START_VOLUME_KM3 = binary64 (464 / 10) \<and>
   YEARLY_MELT_KM3 = binary64 (12 / 10) \<and>
   TRUCK_CAPACITY_L = 10000 \<and>
   SECONDS_PER_YEAR = 365 * 24 * 3600 \<and>
   secondsSinceStart (startOfYear + 31536000000) = SECONDS_PER_YEAR \<and>
   meltedM3 SECONDS_PER_YEAR = 1200000000 \<and>
   remainingKm3 SECONDS_PER_YEAR = 6361334473660825 / 140737488355328 \<and>
   remainingKm3 SECONDS_PER_YEAR = binary64 (452 / 10) - 1 / 2 ^ 47 \<and>
   trucks SECONDS_PER_YEAR = 120000000 + 1 / 2 ^ 26 \<and>
   updateCounters (startOfYear + 31536000000) =
     \<lparr>volume_text = ''45.20'', melted_text = ''1,200,000,000'', trucks_text = ''120,000,000''\<rparr>"
proof (intro conjI)
  show "MELT_RATE_M3_PER_SEC = fdiv (fmul YEARLY_MELT_KM3 (binary64 (10 ^ 9))) SECONDS_PER_YEAR"
    by (rule MELT_RATE_M3_PER_SEC_def)
  show "MELT_RATE_L_PER_SEC = fmul MELT_RATE_M3_PER_SEC 1000"
    by (rule MELT_RATE_L_PER_SEC_def)
  show "TRUCK_RATE_PER_SEC = fdiv MELT_RATE_L_PER_SEC TRUCK_CAPACITY_L"
    by (rule TRUCK_RATE_PER_SEC_def)
  show "START_VOLUME_KM3 = binary64 (464 / 10)" by (rule START_VOLUME_KM3_def)
  show "YEARLY_MELT_KM3 = binary64 (12 / 10)" by (rule YEARLY_MELT_KM3_def)
  show "TRUCK_CAPACITY_L = 10000" by (rule TRUCK_CAPACITY_L_val)
  show "SECONDS_PER_YEAR = 365 * 24 * 3600" by (simp add: SECONDS_PER_YEAR_val)
  show "secondsSinceStart (startOfYear + 31536000000) = SECONDS_PER_YEAR"
    by (simp add: one_year_after SECONDS_PER_YEAR_val)
  show "meltedM3 SECONDS_PER_YEAR = 1200000000"
    by (simp add: SECONDS_PER_YEAR_val one_year_values)
  show "remainingKm3 SECONDS_PER_YEAR = 6361334473660825 / 140737488355328"
    by (simp add: SECONDS_PER_YEAR_val remainingKm3_one_year)
  show "remainingKm3 SECONDS_PER_YEAR = binary64 (452 / 10) - 1 / 2 ^ 47"
    unfolding SECONDS_PER_YEAR_val remainingKm3_one_year literal_45_2 by simp
  show "trucks SECONDS_PER_YEAR = 120000000 + 1 / 2 ^ 26"
    by (simp add: SECONDS_PER_YEAR_val one_year_values)
  show "updateCounters (startOfYear + 31536000000) =
     \<lparr>volume_text = ''45.20'', melted_text = ''1,200,000,000'', trucks_text = ''120,000,000''\<rparr>"
    by (rule display_one_year)
qed

section \<open>The audio toggle\<close>

lemma active_add: "''active'' \<in> set (classList_add ''active'' cl)"
  by (simp add: classList_add_def)

lemma active_remove: "''active'' \<notin> set (classList_remove ''active'' cl)"
  by (simp add: classList_remove_def)

lemma click_consistent: "consistent (click s)"
  by (simp add: consistent_def click_def active_def active_add active_remove)

lemma click_click:
  "muted (click (click s)) = muted s \<and>
   textContent (click (click s)) = (if muted s then ''Ton abspielen'' else ''Ton ausschalten'') \<and>
   active (click (click s)) = (\<not> muted s)"
  by (simp add: click_def active_def active_add active_remove)

text \<open>
  C6, as stated: from every starting state two activations bring back the mute flag, the
  label and the active mark.  A muted video under a button with any other label than
  \<open>Ton abspielen\<close>, here \<open>Sound\<close>, ends with the label \<open>Ton abspielen\<close>; and a muted video
  under a button that is marked active ends unmarked.
\<close>

theorem click_twice_counterexample:
  "textContent (click (click \<lparr>muted = True, textContent = ''Sound'', classList = []\<rparr>))
     \<noteq> textContent \<lparr>muted = True, textContent = ''Sound'', classList = []\<rparr> \<and>
   active (click (click \<lparr>muted = True, textContent = ''Ton abspielen'', classList = [''active'']\<rparr>))
     \<noteq> active \<lparr>muted = True, textContent = ''Ton abspielen'', classList = [''active'']\<rparr>"
  by (simp add: click_def active_def classList_add_def classList_remove_def)

text \<open>
  C6, amended.  From every starting state two activations bring back the mute flag.  They
  bring back the label and the active mark as well when these agreed with the mute flag
  at the start, which they do after any activation; otherwise the label and the mark end
  as the ones that belong to the original mute flag.
\<close>

theorem click_twice:
  "muted (click (click s)) = muted s \<and>
   textContent (click (click s)) = (if muted s then ''Ton abspielen'' else ''Ton ausschalten'') \<and>
   active (click (click s)) = (\<not> muted s) \<and>
   (consistent s \<longrightarrow>
      textContent (click (click s)) = textContent s \<and> active (click (click s)) = active s) \<and>
   muted (click (click (click s))) = muted (click s) \<and>
   textContent (click (click (click s))) = textContent (click s) \<and>
   active (click (click (click s))) = active (click s)"
proof -
  have c: "consistent (click s)" by (rule click_consistent)
  have two: "consistent u \<Longrightarrow>
      textContent (click (click u)) = textContent u \<and> active (click (click u)) = active u" for u
    using click_click [of u] by (simp add: consistent_def)
  show ?thesis
    using click_click [of s] click_click [of "click s"] two [of s] two [OF c] by simp
qed

theorem click_twice_witness:
  "consistent \<lparr>muted = True, textContent = ''Ton abspielen'', classList = [''btn'']\<rparr> \<and>
   muted (click (click \<lparr>muted = True, textContent = ''Ton abspielen'', classList = [''btn'']\<rparr>))
     = True \<and>
   textContent (click (click \<lparr>muted = True, textContent = ''Ton abspielen'', classList = [''btn'']\<rparr>))
     = ''Ton abspielen'' \<and>
   active (click (click \<lparr>muted = True, textContent = ''Ton abspielen'', classList = [''btn'']\<rparr>))
     = False"
proof -
  have "consistent \<lparr>muted = True, textContent = ''Ton abspielen'', classList = [''btn'']\<rparr>"
    by (simp add: consistent_def active_def)
  then show ?thesis
    using click_twice [of "\<lparr>muted = True, textContent = ''Ton abspielen'', classList = [''btn'']\<rparr>"]
    by (simp add: active_def)
qed

text \<open>
  C7.  After every activation, whatever the state before it, the video is unmuted if and
  only if the button is marked active, if and only if the label is the prompt to mute,
  \<open>Ton ausschalten\<close>; a muted video goes with the prompt \<open>Ton abspielen\<close>.
\<close>

theorem click_establishes_consistency:
  "((\<not> muted (click s)) = active (click s)) \<and>
   (active (click s) = (textContent (click s) = ''Ton ausschalten'')) \<and>
   (muted (click s) = (textContent (click s) = ''Ton abspielen'')) \<and>
   consistent (click s)"
  by (simp add: consistent_def click_def active_def active_add active_remove)

theorem click_establishes_consistency_witness:
  "muted (click \<lparr>muted = True, textContent = ''Sound'', classList = []\<rparr>) = False \<and>
   active (click \<lparr>muted = True, textContent = ''Sound'', classList = []\<rparr>) = True \<and>
   textContent (click \<lparr>muted = True, textContent = ''Sound'', classList = []\<rparr>)
     = ''Ton ausschalten''"
  using click_establishes_consistency [of "\<lparr>muted = True, textContent = ''Sound'', classList = []\<rparr>"]
  by (simp add: click_def)

section \<open>Startup with a missing element\<close>

lemma write_counters_cases:
  "write_counters d p =
     (if volume_remaining p = None then (p, Some TypeError)
      else if melted_since p = None
        then (p\<lparr>volume_remaining := Some (volume_text d)\<rparr>, Some TypeError)
      else if truck_count p = None
        then (p\<lparr>volume_remaining := Some (volume_text d),
                melted_since := Some (melted_text d)\<rparr>, Some TypeError)
      else (p\<lparr>volume_remaining := Some (volume_text d), melted_since := Some (melted_text d),
              truck_count := Some (trucks_text d)\<rparr>, None))"
  by (simp add: write_counters_def Let_def)

lemma startup_cases:
  "startup now p =
     (let d = updateCounters now
      in if volume_remaining p = None then (p, Some TypeError)
         else if melted_since p = None
           then (p\<lparr>volume_remaining := Some (volume_text d)\<rparr>, Some TypeError)
         else if truck_count p = None
           then (p\<lparr>volume_remaining := Some (volume_text d),
                   melted_since := Some (melted_text d)\<rparr>, Some TypeError)
         else if audio_toggle p = None
           then (p\<lparr>volume_remaining := Some (volume_text d),
                   melted_since := Some (melted_text d),
                   truck_count := Some (trucks_text d), interval := True\<rparr>, Some TypeError)
         else (p\<lparr>volume_remaining := Some (volume_text d),
                 melted_since := Some (melted_text d),
                 truck_count := Some (trucks_text d), interval := True,
                 audio_toggle := Some True, initMap_set := True\<rparr>, None))"
  by (auto simp add: startup_def write_counters_cases Let_def split: option.splits)

text \<open>
  C8, as stated: a missing display target makes the initialization fail with a
  configuration error and leaves nothing partially initialized.  On a page with the three
  counter regions and the video but no toggle button, the script ends with the
  \<^verbatim>\<open>TypeError\<close> of the host after it has written the counters and started the timer, and
  the map initializer is never registered.  On a page without the video it ends with no
  error at all.
\<close>

theorem startup_fail_fast_counterexample:
  "startup startOfYear
     \<lparr>volume_remaining = Some [], melted_since = Some [], truck_count = Some [],
      audio_toggle = None, background_video = Some True, interval = False,
      initMap_set = False\<rparr> =
     (\<lparr>volume_remaining = Some ''46.40'', melted_since = Some ''0'', truck_count = Some ''0'',
       audio_toggle = None, background_video = Some True, interval = True,
       initMap_set = False\<rparr>, Some TypeError) \<and>
   snd (startup startOfYear
     \<lparr>volume_remaining = Some [], melted_since = Some [], truck_count = Some [],
      audio_toggle = Some False, background_video = None, interval = False,
      initMap_set = False\<rparr>) = None"
  by (simp add: startup_cases display_at_start)

text \<open>
  C8, amended.  The script checks no element at startup.  It completes exactly when the
  three counter regions and the toggle button exist, whether or not the video does; then
  the counters are written, the timer runs, the click handler is attached and the map
  initializer is registered.  Otherwise it stops with the \<^verbatim>\<open>TypeError\<close> of the host at the
  first missing element in the order volume, melted volume, truck loads, button: the
  regions before that one have been written, the timer runs if and only if the three
  regions exist, and neither the click handler nor the map initializer is set up.
  Nothing after the first missing element is touched: the page is left exactly as it was
  but for the regions written before that element and, when it is the button, the timer.
\<close>

theorem startup_without_checks:
  "(let (p', e) = startup now p; d = updateCounters now
    in (e = None) =
         (volume_remaining p \<noteq> None \<and> melted_since p \<noteq> None \<and> truck_count p \<noteq> None \<and>
          audio_toggle p \<noteq> None) \<and>
       (e = None \<longrightarrow>
          volume_remaining p' = Some (volume_text d) \<and> melted_since p' = Some (melted_text d) \<and>
          truck_count p' = Some (trucks_text d) \<and> interval p' \<and>
          audio_toggle p' = Some True \<and> initMap_set p') \<and>
       (e \<noteq> None \<longrightarrow>
          e = Some TypeError \<and> audio_toggle p' = audio_toggle p \<and>
          initMap_set p' = initMap_set p \<and>
          (volume_remaining p \<noteq> None \<longrightarrow> volume_remaining p' = Some (volume_text d)) \<and>
          (volume_remaining p \<noteq> None \<and> melted_since p \<noteq> None \<longrightarrow>
             melted_since p' = Some (melted_text d)) \<and>
          (volume_remaining p \<noteq> None \<and> melted_since p \<noteq> None \<and> truck_count p \<noteq> None \<longrightarrow>
             truck_count p' = Some (trucks_text d) \<and> interval p') \<and>
          (volume_remaining p = None \<or> melted_since p = None \<or> truck_count p = None \<longrightarrow>
             interval p' = interval p)) \<and>
       background_video p' = background_video p \<and>
       (volume_remaining p = None \<longrightarrow> p' = p \<and> e = Some TypeError) \<and>
       (volume_remaining p \<noteq> None \<and> melted_since p = None \<longrightarrow>
          p' = p\<lparr>volume_remaining := Some (volume_text d)\<rparr> \<and> e = Some TypeError) \<and>
       (volume_remaining p \<noteq> None \<and> melted_since p \<noteq> None \<and> truck_count p = None \<longrightarrow>
          p' = p\<lparr>volume_remaining := Some (volume_text d),
                 melted_since := Some (melted_text d)\<rparr> \<and> e = Some TypeError) \<and>
       (volume_remaining p \<noteq> None \<and> melted_since p \<noteq> None \<and> truck_count p \<noteq> None \<and>
        audio_toggle p = None \<longrightarrow>
          p' = p\<lparr>volume_remaining := Some (volume_text d),
                 melted_since := Some (melted_text d),
                 truck_count := Some (trucks_text d), interval := True\<rparr> \<and>
          e = Some TypeError) \<and>
       (volume_remaining p \<noteq> None \<and> melted_since p \<noteq> None \<and> truck_count p \<noteq> None \<and>
        audio_toggle p \<noteq> None \<longrightarrow>
          p' = p\<lparr>volume_remaining := Some (volume_text d),
                 melted_since := Some (melted_text d),
                 truck_count := Some (trucks_text d), interval := True,
                 audio_toggle := Some True, initMap_set := True\<rparr> \<and>
          e = None))"
proof -
  define d where "d = updateCounters now"
  show ?thesis
  proof (cases "volume_remaining p")
    case None
    then have "startup now p = (p, Some TypeError)"
      by (simp add: startup_cases Let_def)
    then show ?thesis by (simp add: Let_def None)
  next
    case v: (Some x)
    show ?thesis
    proof (cases "melted_since p")
      case None
      then have "startup now p = (p\<lparr>volume_remaining := Some (volume_text d)\<rparr>, Some TypeError)"
        by (simp add: startup_cases Let_def v d_def)
      then show ?thesis by (simp add: Let_def v None d_def [symmetric])
    next
      case m: (Some y)
      show ?thesis
      proof (cases "truck_count p")
        case None
        then have "startup now p =
            (p\<lparr>volume_remaining := Some (volume_text d),
               melted_since := Some (melted_text d)\<rparr>, Some TypeError)"
          by (simp add: startup_cases Let_def v m d_def)
        then show ?thesis by (simp add: Let_def v m None d_def [symmetric])
      next
        case t: (Some z)
        show ?thesis
        proof (cases "audio_toggle p")
          case None
          then have "startup now p =
              (p\<lparr>volume_remaining := Some (volume_text d),
                 melted_since := Some (melted_text d),
                 truck_count := Some (trucks_text d), interval := True\<rparr>, Some TypeError)"
            by (simp add: startup_cases Let_def v m t d_def)
          then show ?thesis by (simp add: Let_def v m t None d_def [symmetric])
        next
          case a: (Some b)
          then have "startup now p =
              (p\<lparr>volume_remaining := Some (volume_text d),
                 melted_since := Some (melted_text d),
                 truck_count := Some (trucks_text d), interval := True,
                 audio_toggle := Some True, initMap_set := True\<rparr>, None)"
            by (simp add: startup_cases Let_def v m t d_def)
          then show ?thesis by (simp add: Let_def v m t a d_def [symmetric])
        qed
      qed
    qed
  qed
qed

theorem startup_without_checks_witness:
  "startup startOfYear
     \<lparr>volume_remaining = Some [], melted_since = Some [], truck_count = Some [],
      audio_toggle = Some False, background_video = None, interval = False,
      initMap_set = False\<rparr> =
     (\<lparr>volume_remaining = Some ''46.40'', melted_since = Some ''0'', truck_count = Some ''0'',
      audio_toggle = Some True, background_video = None, interval = True,
      initMap_set = True\<rparr>, None) \<and>
   startup startOfYear
     \<lparr>volume_remaining = Some [], melted_since = Some [], truck_count = Some [],
      audio_toggle = None, background_video = Some True, interval = False,
      initMap_set = False\<rparr> =
     (\<lparr>volume_remaining = Some ''46.40'', melted_since = Some ''0'', truck_count = Some ''0'',
      audio_toggle = None, background_video = Some True, interval = True,
      initMap_set = False\<rparr>, Some TypeError) \<and>
   startup startOfYear
     \<lparr>volume_remaining = Some [], melted_since = Some [], truck_count = None,
      audio_toggle = Some False, background_video = Some True, interval = False,
      initMap_set = False\<rparr> =
     (\<lparr>volume_remaining = Some ''46.40'', melted_since = Some ''0'', truck_count = None,
      audio_toggle = Some False, background_video = Some True, interval = False,
      initMap_set = False\<rparr>, Some TypeError) \<and>
   startup startOfYear
     \<lparr>volume_remaining = Some [], melted_since = None, truck_count = Some [],
      audio_toggle = Some False, background_video = Some True, interval = False,
      initMap_set = False\<rparr> =
     (\<lparr>volume_remaining = Some ''46.40'', melted_since = None, truck_count = Some [],
      audio_toggle = Some False, background_video = Some True, interval = False,
      initMap_set = False\<rparr>, Some TypeError) \<and>
   startup startOfYear
     \<lparr>volume_remaining = None, melted_since = Some [], truck_count = Some [],
      audio_toggle = Some False, background_video = Some True, interval = False,
      initMap_set = False\<rparr> =
     (\<lparr>volume_remaining = None, melted_since = Some [], truck_count = Some [],
      audio_toggle = Some False, background_video = Some True, interval = False,
      initMap_set = False\<rparr>, Some TypeError)"
proof -
  have ok: "startup startOfYear
     \<lparr>volume_remaining = Some [], melted_since = Some [], truck_count = Some [],
      audio_toggle = Some False, background_video = None, interval = False,
      initMap_set = False\<rparr> =
     (\<lparr>volume_remaining = Some ''46.40'', melted_since = Some ''0'', truck_count = Some ''0'',
      audio_toggle = Some True, background_video = None, interval = True,
      initMap_set = True\<rparr>, None)"
  proof -
    let ?p = "\<lparr>volume_remaining = Some [], melted_since = Some [], truck_count = Some [],
      audio_toggle = Some False, background_video = None, interval = False,
      initMap_set = False\<rparr>"
    obtain p' e where pe: "startup startOfYear ?p = (p', e)"
      by (cases "startup startOfYear ?p")
    note th = startup_without_checks [of startOfYear ?p, unfolded pe Let_def split_conv]
    have "volume_remaining ?p \<noteq> None \<and> melted_since ?p \<noteq> None \<and> truck_count ?p \<noteq> None \<and>
      audio_toggle ?p \<noteq> None \<longrightarrow>
      p' = ?p\<lparr>volume_remaining := Some (volume_text (updateCounters startOfYear)),
        melted_since := Some (melted_text (updateCounters startOfYear)),
        truck_count := Some (trucks_text (updateCounters startOfYear)), interval := True,
        audio_toggle := Some True, initMap_set := True\<rparr> \<and>
      e = None"
      by (rule th [THEN conjunct2, THEN conjunct2, THEN conjunct2, THEN conjunct2, THEN conjunct2, THEN conjunct2, THEN conjunct2, THEN conjunct2])
    then have "p' = ?p\<lparr>volume_remaining := Some (volume_text (updateCounters startOfYear)),
        melted_since := Some (melted_text (updateCounters startOfYear)),
        truck_count := Some (trucks_text (updateCounters startOfYear)), interval := True,
        audio_toggle := Some True, initMap_set := True\<rparr> \<and>
      e = None"
      by simp
    then show ?thesis by (simp add: pe display_at_start)
  qed
  have a: "startup startOfYear
     \<lparr>volume_remaining = Some [], melted_since = Some [], truck_count = Some [],
      audio_toggle = None, background_video = Some True, interval = False,
      initMap_set = False\<rparr> =
     (\<lparr>volume_remaining = Some ''46.40'', melted_since = Some ''0'', truck_count = Some ''0'',
      audio_toggle = None, background_video = Some True, interval = True,
      initMap_set = False\<rparr>, Some TypeError)"
  proof -
    let ?p = "\<lparr>volume_remaining = Some [], melted_since = Some [], truck_count = Some [],
      audio_toggle = None, background_video = Some True, interval = False,
      initMap_set = False\<rparr>"
    obtain p' e where pe: "startup startOfYear ?p = (p', e)"
      by (cases "startup startOfYear ?p")
    note th = startup_without_checks [of startOfYear ?p, unfolded pe Let_def split_conv]
    have "volume_remaining ?p \<noteq> None \<and> melted_since ?p \<noteq> None \<and> truck_count ?p \<noteq> None \<and>
      audio_toggle ?p = None \<longrightarrow>
      p' = ?p\<lparr>volume_remaining := Some (volume_text (updateCounters startOfYear)),
        melted_since := Some (melted_text (updateCounters startOfYear)),
        truck_count := Some (trucks_text (updateCounters startOfYear)), interval := True\<rparr> \<and>
      e = Some TypeError"
      by (rule th [THEN conjunct2, THEN conjunct2, THEN conjunct2, THEN conjunct2, THEN conjunct2, THEN conjunct2, THEN conjunct2, THEN conjunct1])
    then have "p' = ?p\<lparr>volume_remaining := Some (volume_text (updateCounters startOfYear)),
        melted_since := Some (melted_text (updateCounters startOfYear)),
        truck_count := Some (trucks_text (updateCounters startOfYear)), interval := True\<rparr> \<and>
      e = Some TypeError"
      by simp
    then show ?thesis by (simp add: pe display_at_start)
  qed
  have t: "startup startOfYear
     \<lparr>volume_remaining = Some [], melted_since = Some [], truck_count = None,
      audio_toggle = Some False, background_video = Some True, interval = False,
      initMap_set = False\<rparr> =
     (\<lparr>volume_remaining = Some ''46.40'', melted_since = Some ''0'', truck_count = None,
      audio_toggle = Some False, background_video = Some True, interval = False,
      initMap_set = False\<rparr>, Some TypeError)"
  proof -
    let ?p = "\<lparr>volume_remaining = Some [], melted_since = Some [], truck_count = None,
      audio_toggle = Some False, background_video = Some True, interval = False,
      initMap_set = False\<rparr>"
    obtain p' e where pe: "startup startOfYear ?p = (p', e)"
      by (cases "startup startOfYear ?p")
    note th = startup_without_checks [of startOfYear ?p, unfolded pe Let_def split_conv]
    have "volume_remaining ?p \<noteq> None \<and> melted_since ?p \<noteq> None \<and> truck_count ?p = None \<longrightarrow>
      p' = ?p\<lparr>volume_remaining := Some (volume_text (updateCounters startOfYear)),
        melted_since := Some (melted_text (updateCounters startOfYear))\<rparr> \<and>
      e = Some TypeError"
      by (rule th [THEN conjunct2, THEN conjunct2, THEN conjunct2, THEN conjunct2, THEN conjunct2, THEN conjunct2, THEN conjunct1])
    then have "p' = ?p\<lparr>volume_remaining := Some (volume_text (updateCounters startOfYear)),
        melted_since := Some (melted_text (updateCounters startOfYear))\<rparr> \<and>
      e = Some TypeError"
      by simp
    then show ?thesis by (simp add: pe display_at_start)
  qed
  have m: "startup startOfYear
     \<lparr>volume_remaining = Some [], melted_since = None, truck_count = Some [],
      audio_toggle = Some False, background_video = Some True, interval = False,
      initMap_set = False\<rparr> =
     (\<lparr>volume_remaining = Some ''46.40'', melted_since = None, truck_count = Some [],
      audio_toggle = Some False, background_video = Some True, interval = False,
      initMap_set = False\<rparr>, Some TypeError)"
  proof -
    let ?p = "\<lparr>volume_remaining = Some [], melted_since = None, truck_count = Some [],
      audio_toggle = Some False, background_video = Some True, interval = False,
      initMap_set = False\<rparr>"
    obtain p' e where pe: "startup startOfYear ?p = (p', e)"
      by (cases "startup startOfYear ?p")
    note th = startup_without_checks [of startOfYear ?p, unfolded pe Let_def split_conv]
    have "volume_remaining ?p \<noteq> None \<and> melted_since ?p = None \<longrightarrow>
      p' = ?p\<lparr>volume_remaining := Some (volume_text (updateCounters startOfYear))\<rparr> \<and>
      e = Some TypeError"
      by (rule th [THEN conjunct2, THEN conjunct2, THEN conjunct2, THEN conjunct2, THEN conjunct2, THEN conjunct1])
    then have "p' = ?p\<lparr>volume_remaining := Some (volume_text (updateCounters startOfYear))\<rparr> \<and>
      e = Some TypeError"
      by simp
    then show ?thesis by (simp add: pe display_at_start)
  qed
  have v: "startup startOfYear
     \<lparr>volume_remaining = None, melted_since = Some [], truck_count = Some [],
      audio_toggle = Some False, background_video = Some True, interval = False,
      initMap_set = False\<rparr> =
     (\<lparr>volume_remaining = None, melted_since = Some [], truck_count = Some [],
      audio_toggle = Some False, background_video = Some True, interval = False,
      initMap_set = False\<rparr>, Some TypeError)"
  proof -
    let ?p = "\<lparr>volume_remaining = None, melted_since = Some [], truck_count = Some [],
      audio_toggle = Some False, background_video = Some True, interval = False,
      initMap_set = False\<rparr>"
    obtain p' e where pe: "startup startOfYear ?p = (p', e)"
      by (cases "startup startOfYear ?p")
    note th = startup_without_checks [of startOfYear ?p, unfolded pe Let_def split_conv]
    have "volume_remaining ?p = None \<longrightarrow>
      p' = ?p \<and>
      e = Some TypeError"
      by (rule th [THEN conjunct2, THEN conjunct2, THEN conjunct2, THEN conjunct2, THEN conjunct1])
    then have "p' = ?p \<and>
      e = Some TypeError"
      by simp
    then show ?thesis by (simp add: pe display_at_start)
  qed
  from ok a t m v show ?thesis by (intro conjI)
qed

section \<open>The map\<close>

text \<open>
  C9.  The map initializer adds exactly one map to those that exist: centred on the
  Matterhorn coordinate, zoom 13, hybrid, tilt 45, heading 0, default controls disabled.
  Its styles are the eight rules of the dark theme and nothing else, whatever the styles
  it started with.  It adds exactly one marker, on that map, at the centre of the map,
  with the title \<open>Matterhorn\<close>.
\<close>

theorem initMap_one_map_one_marker:
  "maps (initMap el ds w) =
     maps w @ [\<lparr>mapDiv = el, center = matterhorn, zoom = 13, mapTypeId = ''hybrid'',
                tilt = 45, heading = 0, disableDefaultUI = True, styles = darkStyle\<rparr>] \<and>
   markers (initMap el ds w) =
     markers w @ [\<lparr>position = matterhorn, marker_map = length (maps w), title = ''Matterhorn''\<rparr>] \<and>
   length (maps (initMap el ds \<lparr>maps = [], markers = []\<rparr>)) = 1 \<and>
   length (markers (initMap el ds \<lparr>maps = [], markers = []\<rparr>)) = 1 \<and>
   styles (last (maps (initMap el ds w))) = darkStyle \<and>
   position (last (markers (initMap el ds w))) = center (last (maps (initMap el ds w))) \<and>
   maps (initMap el ds w) ! marker_map (last (markers (initMap el ds w)))
     = last (maps (initMap el ds w)) \<and>
   length darkStyle = 8 \<and>
   matterhorn = \<lparr>lat = binary64 (4597631 / 100000), lng = binary64 (765827 / 100000)\<rparr>"
  by (simp add: initMap_def new_Map_def setOptions_styles_def new_Marker_def darkStyle_def
      matterhorn_def)

theorem initMap_one_map_one_marker_witness:
  "initMap (Some ''map'') [] \<lparr>maps = [], markers = []\<rparr> =
     \<lparr>maps = [\<lparr>mapDiv = Some ''map'', center = matterhorn, zoom = 13, mapTypeId = ''hybrid'',
                tilt = 45, heading = 0, disableDefaultUI = True, styles = darkStyle\<rparr>],
      markers = [\<lparr>position = matterhorn, marker_map = 0, title = ''Matterhorn''\<rparr>]\<rparr>"
  using initMap_one_map_one_marker [of "Some ''map''" "[]" "\<lparr>maps = [], markers = []\<rparr>"]
  by (cases "initMap (Some ''map'') [] \<lparr>maps = [], markers = []\<rparr>") simp

end
